theory Spec2Isabelle
  imports Complex_Main "HOL-Library.Word"
begin

unbundle bit_operations_syntax

section \<open>fsevent\_watch: a shallow embedding of \<open>src/fsevent_watch/main.c\<close>\<close>

text \<open>
  The program is one C file. Its functions are \<open>append_path\<close>, \<open>parse_cli_settings\<close>,
  \<open>classic_output_format\<close>, \<open>niw_output_format\<close>, \<open>callback\<close> and \<open>main\<close>. Each becomes
  a HOL function of the same name over an explicit process state (\<open>world\<close>): the static
  \<open>config\<close> structure, what was written to standard error and standard output, and the
  calls made to the FSEvents stream interface. Everything the file calls but does not
  define (the C library, Gestalt, the generated command-line parser, CoreFoundation and
  FSEvents) is read from an environment record \<open>env\<close>, so every theorem holds for all
  behaviours of those collaborators.
\<close>

subsection \<open>Data\<close>

text \<open>
  \<open>enum FSEventWatchOutputFormat\<close> is declared in \<open>cli.h\<close>. The source names two of its
  enumerators; a C enum object can hold any other integer value as well, which is the
  third constructor.
\<close>

datatype FSEventWatchOutputFormat =
    kFSEventWatchOutputFormatClassic
  | kFSEventWatchOutputFormatNIW
  | kFSEventWatchOutputFormatOther int

text \<open>
  The static \<open>config\<close> structure (lines 5--17). \<open>paths\<close> is a \<open>CFMutableArrayRef\<close>:
  \<open>None\<close> is the null reference of the initialiser, \<open>Some ps\<close> an array holding \<open>ps\<close>.
\<close>

record config =
  sinceWhen :: "64 word"
  latency :: real
  flags :: "32 word"
  paths :: "string list option"
  format :: FSEventWatchOutputFormat

text \<open>Constants of the FSEvents header used by the source.\<close>

definition kFSEventStreamEventIdSinceNow :: "64 word" where
  "kFSEventStreamEventIdSinceNow = 0xFFFFFFFFFFFFFFFF"

definition kFSEventStreamCreateFlagNone :: "32 word" where
  "kFSEventStreamCreateFlagNone = 0x00"

definition kFSEventStreamCreateFlagNoDefer :: "32 word" where
  "kFSEventStreamCreateFlagNoDefer = 0x02"

definition kFSEventStreamCreateFlagWatchRoot :: "32 word" where
  "kFSEventStreamCreateFlagWatchRoot = 0x04"

definition kFSEventStreamCreateFlagIgnoreSelf :: "32 word" where
  "kFSEventStreamCreateFlagIgnoreSelf = 0x08"

definition kFSEventStreamCreateFlagFileEvents :: "32 word" where
  "kFSEventStreamCreateFlagFileEvents = 0x10"

definition config_init :: config where
  "config_init =
     \<lparr> sinceWhen = kFSEventStreamEventIdSinceNow,
       latency = 0.3,
       flags = kFSEventStreamCreateFlagNone,
       paths = None,
       format = kFSEventWatchOutputFormatClassic \<rparr>"

text \<open>
  Standard output is a sequence of actions: one \<open>Print\<close> per \<open>fprintf(stdout, ...)\<close> call
  and one \<open>Flush\<close> per \<open>fflush(stdout)\<close>. The calls on the FSEvents stream and the run
  loop are recorded in the order they are made.
\<close>

datatype io = Print string | Flush

datatype native_call =
    FSEventStreamCreate "string list option" "64 word" real "32 word"
  | FSEventStreamScheduleWithRunLoop
  | FSEventStreamStart
  | CFRunLoopRun
  | FSEventStreamFlushSync
  | FSEventStreamStop

record world =
  config :: config
  stderr :: "string list"
  stdout :: "io list"
  calls :: "native_call list"

text \<open>
  How a run can stop before the end of a function: \<open>exit\<close> (or \<open>return\<close> from \<open>main\<close>) with
  a status, a read or write the C standard leaves undefined, or a run loop that never
  returns.
\<close>

datatype fault = Out_of_bounds | Null_reference

datatype stop = Exit int | Crash fault | Hang

type_synonym 'a result = "stop \<times> world + 'a"

text \<open>The state in which a function stops or returns.\<close>

definition result_world :: "world result \<Rightarrow> world" where
  "result_world r = (case r of Inl (s, w) \<Rightarrow> w | Inr w \<Rightarrow> w)"

definition EXIT_FAILURE :: int where
  "EXIT_FAILURE = 1"

definition fprintf_stdout :: "string \<Rightarrow> world \<Rightarrow> world" where
  "fprintf_stdout s w = w\<lparr>stdout := stdout w @ [Print s]\<rparr>"

definition fprintf_stderr :: "string \<Rightarrow> world \<Rightarrow> world" where
  "fprintf_stderr s w = w\<lparr>stderr := stderr w @ [s]\<rparr>"

definition fflush_stdout :: "world \<Rightarrow> world" where
  "fflush_stdout w = w\<lparr>stdout := stdout w @ [Flush]\<rparr>"

text \<open>The bytes a sequence of output actions puts on the stream, in order.\<close>

fun printed :: "io list \<Rightarrow> string" where
  "printed [] = []"
| "printed (Print s # as) = s @ printed as"
| "printed (Flush # as) = printed as"

subsection \<open>Event formatters (lines 171--230)\<close>

text \<open>
  The conversions \<open>%lu\<close> and \<open>%llu\<close> of \<open>fprintf\<close>: an unsigned integer in decimal, most
  significant digit first, no leading zeros, \<open>0\<close> for zero.
\<close>

definition digit_char :: "nat \<Rightarrow> char" where
  "digit_char d = ''0123456789'' ! d"

function unsigned_decimal :: "nat \<Rightarrow> string" where
  "unsigned_decimal n =
     (if n < 10 then [digit_char n]
      else unsigned_decimal (n div 10) @ [digit_char (n mod 10)])"
  by pat_completeness auto
termination
  by (relation "measure id") auto

declare unsigned_decimal.simps [simp del]

text \<open>
  Reading a decimal numeral back: the value of a digit, and of a string of digits.
  It is used to state that \<open>unsigned_decimal\<close> prints the number it is given.
\<close>

definition digit_value :: "char \<Rightarrow> nat" where
  "digit_value c = of_char c - 48"

definition decimal_value :: "string \<Rightarrow> nat" where
  "decimal_value s = foldl (\<lambda>a c. 10 * a + digit_value c) 0 s"

text \<open>
  The lines of a text: what stands between one newline and the next, without the
  newlines. \<open>split_lines line s\<close> reads \<open>s\<close> with \<open>line\<close> the part of the current line read
  so far; a last line without newline is kept when it is not empty. It is used to state
  how many lines a formatter prints.
\<close>

fun split_lines :: "string \<Rightarrow> string \<Rightarrow> string list" where
  "split_lines line [] = (if line = [] then [] else [line])"
| "split_lines line (c # cs) =
     (if c = CHR 0x0A then line # split_lines [] cs else split_lines (line @ [c]) cs)"

definition lines_of :: "string \<Rightarrow> string list" where
  "lines_of s = split_lines [] s"

text \<open>
  \<open>classic_output_format\<close>: the loop \<open>for (i = 0; i < numEvents; i++)\<close> prints \<open>paths[i]\<close>
  and a colon; a newline follows the loop. The arrays are lists; an index past the end of
  one is a read outside the array.
\<close>

function classic_loop :: "nat \<Rightarrow> nat \<Rightarrow> string list \<Rightarrow> world \<Rightarrow> world result" where
  "classic_loop i numEvents eventPaths w =
     (if i < numEvents then
        (if i < length eventPaths
         then classic_loop (Suc i) numEvents eventPaths
                (fprintf_stdout (eventPaths ! i @ '':'') w)
         else Inl (Crash Out_of_bounds, w))
      else Inr w)"
  by pat_completeness auto
termination
  by (relation "measure (\<lambda>(i, numEvents, eventPaths, w). numEvents - i)") auto

declare classic_loop.simps [simp del]

definition classic_output_format :: "nat \<Rightarrow> string list \<Rightarrow> world \<Rightarrow> world result" where
  "classic_output_format numEvents eventPaths w =
     (case classic_loop 0 numEvents eventPaths w of
        Inl h \<Rightarrow> Inl h
      | Inr w' \<Rightarrow> Inr (fprintf_stdout ''\<newline>'' w'))"

text \<open>
  \<open>niw_output_format\<close>: each iteration prints \<open>"%lu:%llu:%s\n"\<close> of the flags, the id and
  the path. \<open>FSEventStreamEventFlags\<close> is a 32-bit and \<open>FSEventStreamEventId\<close> a 64-bit
  unsigned integer; the casts to \<open>unsigned long\<close> and \<open>unsigned long long\<close> keep the value.
\<close>

definition niw_line :: "32 word \<Rightarrow> 64 word \<Rightarrow> string \<Rightarrow> string" where
  "niw_line eventFlag eventId path =
     unsigned_decimal (unat eventFlag) @ '':'' @ unsigned_decimal (unat eventId) @ '':'' @
     path @ ''\<newline>''"

function niw_loop ::
  "nat \<Rightarrow> nat \<Rightarrow> string list \<Rightarrow> 32 word list \<Rightarrow> 64 word list \<Rightarrow> world \<Rightarrow> world result" where
  "niw_loop i numEvents eventPaths eventFlags eventIds w =
     (if i < numEvents then
        (if i < length eventFlags \<and> i < length eventIds \<and> i < length eventPaths
         then niw_loop (Suc i) numEvents eventPaths eventFlags eventIds
                (fprintf_stdout (niw_line (eventFlags ! i) (eventIds ! i) (eventPaths ! i)) w)
         else Inl (Crash Out_of_bounds, w))
      else Inr w)"
  by pat_completeness auto
termination
  by (relation "measure (\<lambda>(i, numEvents, eventPaths, eventFlags, eventIds, w). numEvents - i)")
    auto

declare niw_loop.simps [simp del]

definition niw_output_format ::
  "nat \<Rightarrow> string list \<Rightarrow> 32 word list \<Rightarrow> 64 word list \<Rightarrow> world \<Rightarrow> world result" where
  "niw_output_format numEvents eventPaths eventFlags eventIds w =
     (case niw_loop 0 numEvents eventPaths eventFlags eventIds w of
        Inl h \<Rightarrow> Inl h
      | Inr w' \<Rightarrow> Inr (fprintf_stdout ''\<newline>'' w'))"

text \<open>
  \<open>callback\<close>: dispatch on \<open>config.format\<close>, then \<open>fflush(stdout)\<close>. The stream reference
  and the client info pointer are not used by the body.
\<close>

definition callback ::
  "nat \<Rightarrow> string list \<Rightarrow> 32 word list \<Rightarrow> 64 word list \<Rightarrow> world \<Rightarrow> world result" where
  "callback numEvents eventPaths eventFlags eventIds w =
     (case (if format (config w) = kFSEventWatchOutputFormatClassic
            then classic_output_format numEvents eventPaths w
            else if format (config w) = kFSEventWatchOutputFormatNIW
            then niw_output_format numEvents eventPaths eventFlags eventIds w
            else Inr w) of
        Inl h \<Rightarrow> Inl h
      | Inr w' \<Rightarrow> Inr (fflush_stdout w'))"

subsection \<open>C strings in fixed-size arrays\<close>

text \<open>
  A \<open>char\<close> array is the list of its bytes. The C string it holds is the bytes before the
  first terminator; an array with no terminator holds none, and reading it as a string
  runs past its end.
\<close>

type_synonym buffer = "char list"

definition NUL :: char where
  "NUL = CHR 0x00"

definition cstring :: "buffer \<Rightarrow> string option" where
  "cstring buf = (if NUL \<in> set buf then Some (takeWhile (\<lambda>c. c \<noteq> NUL) buf) else None)"

definition strlen :: "buffer \<Rightarrow> nat option" where
  "strlen buf = map_option length (cstring buf)"

text \<open>\<open>path[0]\<close> of a C string: its first byte, the terminator when the string is empty.\<close>

definition first_char :: "string \<Rightarrow> char" where
  "first_char s = (case s of [] \<Rightarrow> NUL | c # _ \<Rightarrow> c)"

text \<open>
  \<open>strlcpy(&buf[off], src, dstsize)\<close>: when \<open>dstsize\<close> is not zero, at most
  \<open>dstsize - 1\<close> bytes of \<open>src\<close> are copied and a terminator is written after them; when
  \<open>dstsize\<close> is zero nothing is written. The bytes of \<open>buf\<close> before \<open>off\<close> and after the terminator stay.
\<close>

definition store :: "buffer \<Rightarrow> nat \<Rightarrow> char list \<Rightarrow> buffer" where
  "store buf off bytes = take off buf @ bytes @ drop (off + length bytes) buf"

definition strlcpy :: "buffer \<Rightarrow> nat \<Rightarrow> string \<Rightarrow> nat \<Rightarrow> buffer" where
  "strlcpy buf off src dstsize =
     (if dstsize = 0 then buf else store buf off (take (dstsize - 1) src @ [NUL]))"

subsection \<open>The environment of the process\<close>

text \<open>
  \<open>struct cli_info\<close> is declared in \<open>cli.h\<close>; these are the members the source reads.
  \<open>inputs_num\<close> is the length of \<open>inputs\<close>. The flag members are C integers, tested for
  being non-zero.
\<close>

record cli_info =
  since_when_arg :: "64 word"
  latency_arg :: real
  format_arg :: FSEventWatchOutputFormat
  no_defer_flag :: int
  watch_root_flag :: int
  ignore_self_flag :: int
  file_events_flag :: int
  inputs :: "string list"

datatype gestalt_selector = gestaltSystemVersionMajor | gestaltSystemVersionMinor

text \<open>
  One delivered batch, as the arguments of the callback: \<open>numEvents\<close> and the three arrays
  \<open>eventPaths\<close>, \<open>eventFlags\<close>, \<open>eventIds\<close>.
\<close>

type_synonym batch = "nat \<times> string list \<times> 32 word list \<times> 64 word list"

text \<open>
  What the collaborators answer.
  \<^item> \<open>setpgid\<close>: the result of \<open>setpgid(0,0)\<close>.
  \<^item> \<open>Gestalt sel\<close>: \<open>Some v\<close> when the call returns \<open>noErr\<close> and stores \<open>v\<close> (an \<open>SInt32\<close>),
    \<open>None\<close> otherwise.
  \<^item> \<open>cli_parser argv\<close>: \<open>Some args_info\<close> when the generated parser returns 0, \<open>None\<close> when
    it returns non-zero.
  \<^item> \<open>PATH_MAX\<close>: the platform's constant, the size of the local array \<open>fullPath\<close>.
  \<^item> \<open>realpath path\<close>: whether the result is non-null, and the contents of the array
    \<open>fullPath\<close> after the call (the array is not initialised before it).
  \<^item> \<open>getcwd buf size\<close>: whether the result is non-null, and the contents of the array
    after the call on an array holding \<open>buf\<close>.
  \<^item> \<open>CFStringCreateWithCString bytes\<close>: whether the result is non-null, that is, whether
    CoreFoundation accepts the C string \<open>bytes\<close> in the encoding \<open>kCFStringEncodingUTF8\<close>.
    A string that was created is represented by the bytes it was created from.
  \<^item> \<open>run_loop\<close>: \<open>None\<close> when \<open>CFRunLoopRun\<close> never returns; \<open>Some bs\<close> when it returns
    after the stream has invoked the callback on the batches \<open>bs\<close>, in order.
  \<^item> \<open>flush_sync\<close>: the batches \<open>FSEventStreamFlushSync\<close> delivers to the callback.
\<close>

record env =
  setpgid :: int
  Gestalt :: "gestalt_selector \<Rightarrow> 32 word option"
  cli_parser :: "string list \<Rightarrow> cli_info option"
  PATH_MAX :: nat
  realpath :: "string \<Rightarrow> bool \<times> buffer"
  getcwd :: "buffer \<Rightarrow> nat \<Rightarrow> bool \<times> buffer"
  CFStringCreateWithCString :: "string \<Rightarrow> bool"
  run_loop :: "batch list option"
  flush_sync :: "batch list"

subsection \<open>Path resolution (lines 29--76)\<close>

text \<open>
  The contents of the local array \<open>fullPath\<close> when line 71 is reached. The result of
  \<open>getcwd\<close> is not tested by the source; \<open>strlen\<close> of an array without terminator reads
  past its end (\<open>None\<close>). In \<open>sizeof(fullPath) - (len + 1)\<close> the length is below the size
  of the array, so the subtraction does not wrap.
\<close>

definition append_path_fullPath :: "env \<Rightarrow> string \<Rightarrow> buffer option" where
  "append_path_fullPath e path =
     (let (resolved, buf) = realpath e path in
      if \<not> resolved then
        (if first_char path \<noteq> CHR ''/'' then
           (let buf' = snd (getcwd e buf (PATH_MAX e)) in
            case strlen buf' of
              None \<Rightarrow> None
            | Some len \<Rightarrow>
                Some (strlcpy (buf'[len := CHR ''/'']) (len + 1) path (PATH_MAX e - (len + 1))))
         else Some (strlcpy buf 0 path (PATH_MAX e)))
      else Some buf)"

text \<open>
  The C string that lines 71--73 read from \<open>fullPath\<close>. An array without terminator is
  read past its end.
\<close>

definition resolved_path :: "env \<Rightarrow> string \<Rightarrow> string option" where
  "resolved_path e path =
     (case append_path_fullPath e path of
        None \<Rightarrow> None
      | Some buf \<Rightarrow> cstring buf)"

text \<open>
  \<open>append_path\<close>: \<open>CFStringCreateWithCString\<close> makes a string of the resolved bytes, and
  \<open>CFArrayAppendValue\<close> appends it to the array \<open>config.paths\<close>. The source does not test
  the result of \<open>CFStringCreateWithCString\<close>: when it is null (the bytes are not accepted
  as UTF-8), \<open>CFArrayAppendValue\<close> and \<open>CFRelease\<close> are called on a null reference.
\<close>

definition append_path :: "env \<Rightarrow> string \<Rightarrow> world \<Rightarrow> world result" where
  "append_path e path w =
     (case resolved_path e path of
        None \<Rightarrow> Inl (Crash Out_of_bounds, w)
      | Some bytes \<Rightarrow>
          if \<not> CFStringCreateWithCString e bytes then Inl (Crash Null_reference, w)
          else
            (case paths (config w) of
               None \<Rightarrow> Inl (Crash Null_reference, w)
             | Some ps \<Rightarrow> Inr (w\<lparr>config := (config w)\<lparr>paths := Some (ps @ [bytes])\<rparr>\<rparr>)))"

text \<open>The loop of lines 136--138 over \<open>args_info.inputs\<close>.\<close>

fun append_paths :: "env \<Rightarrow> string list \<Rightarrow> world \<Rightarrow> world result" where
  "append_paths e [] w = Inr w"
| "append_paths e (path # rest) w =
     (case append_path e path w of
        Inl h \<Rightarrow> Inl h
      | Inr w' \<Rightarrow> append_paths e rest w')"

subsection \<open>Command-line settings (lines 78--169)\<close>

text \<open>
  Lines 82--88: the two \<open>Gestalt\<close> calls; a version number that cannot be read is 0.
  Both numbers are \<open>SInt32\<close>, compared as signed integers (\<open>sint\<close>).
\<close>

definition detected_version :: "env \<Rightarrow> 32 word \<times> 32 word" where
  "detected_version e =
     ((case Gestalt e gestaltSystemVersionMajor of Some v \<Rightarrow> v | None \<Rightarrow> 0),
      (case Gestalt e gestaltSystemVersionMinor of Some v \<Rightarrow> v | None \<Rightarrow> 0))"

text \<open>
  \<open>parse_cli_settings\<close>, statement by statement. The operator \<open>&\<close> of the three version
  tests joins two comparison results (each 0 or 1), so it is the conjunction. Every
  \<open>exit(EXIT_FAILURE)\<close> is a result \<open>Inl (Exit EXIT_FAILURE, _)\<close> carrying the state at
  that moment. \<open>cli_parser_free\<close> and the \<open>DEBUG\<close> blocks leave the state as it is.
\<close>

definition parse_cli_settings :: "env \<Rightarrow> string list \<Rightarrow> world \<Rightarrow> world result" where
  "parse_cli_settings e argv w =
     (let (osMajorVersion, osMinorVersion) = detected_version e in
      if osMajorVersion = 10 \<and> sint osMinorVersion < 5 then
        Inl (Exit EXIT_FAILURE,
             fprintf_stderr ''The FSEvents API is unavailable on this version of macos!\<newline>'' w)
      else
        (case cli_parser e argv of
           None \<Rightarrow> Inl (Exit EXIT_FAILURE, w)
         | Some args_info \<Rightarrow>
             (let c1 = (config w)
                    \<lparr> paths := Some [],
                      sinceWhen := since_when_arg args_info,
                      latency := latency_arg args_info,
                      format := format_arg args_info \<rparr>;
                  c2 = (if no_defer_flag args_info \<noteq> 0
                        then c1\<lparr>flags := flags c1 OR kFSEventStreamCreateFlagNoDefer\<rparr>
                        else c1);
                  c3 = (if watch_root_flag args_info \<noteq> 0
                        then c2\<lparr>flags := flags c2 OR kFSEventStreamCreateFlagWatchRoot\<rparr>
                        else c2);
                  w3 = w\<lparr>config := c3\<rparr>
              in
              case (if ignore_self_flag args_info \<noteq> 0 then
                      (if osMajorVersion = 10 \<and> 6 \<le> sint osMinorVersion
                       then Inr (w3\<lparr>config :=
                              c3\<lparr>flags := flags c3 OR kFSEventStreamCreateFlagIgnoreSelf\<rparr>\<rparr>)
                       else Inl (Exit EXIT_FAILURE,
                              fprintf_stderr
                                ''MacOSX 10.6 or later is required for --ignore-self\<newline>'' w3))
                    else Inr w3) of
                Inl h \<Rightarrow> Inl h
              | Inr w4 \<Rightarrow>
                  (case (if file_events_flag args_info \<noteq> 0 then
                           (if osMajorVersion = 10 \<and> 7 \<le> sint osMinorVersion
                            then Inr (w4\<lparr>config := (config w4)
                                   \<lparr>flags := flags (config w4) OR
                                      kFSEventStreamCreateFlagFileEvents\<rparr>\<rparr>)
                            else Inl (Exit EXIT_FAILURE,
                                   fprintf_stderr
                                     ''MacOSX 10.7 or later required for --file-events\<newline>'' w4))
                         else Inr w4) of
                     Inl h \<Rightarrow> Inl h
                   | Inr w5 \<Rightarrow>
                       if length (inputs args_info) = 0 then append_path e ''.'' w5
                       else append_paths e (inputs args_info) w5))))"

subsection \<open>The watch session (lines 232--289)\<close>

definition call :: "native_call \<Rightarrow> world \<Rightarrow> world" where
  "call c w = w\<lparr>calls := calls w @ [c]\<rparr>"

text \<open>The stream invokes the callback once per batch, one batch after the other.\<close>

fun deliver :: "batch list \<Rightarrow> world \<Rightarrow> world result" where
  "deliver [] w = Inr w"
| "deliver ((numEvents, eventPaths, eventFlags, eventIds) # rest) w =
     (case callback numEvents eventPaths eventFlags eventIds w of
        Inl h \<Rightarrow> Inl h
      | Inr w' \<Rightarrow> deliver rest w')"

text \<open>
  \<open>main\<close>: the process group, the settings, then the six calls in the order of the source.
  The result of \<open>FSEventStreamCreate\<close> is not tested by the source. A run loop that never
  returns ends the trace at \<open>CFRunLoopRun\<close>; what the callback prints during such a run is
  not represented.
\<close>

definition main :: "env \<Rightarrow> string list \<Rightarrow> world \<Rightarrow> stop \<times> world" where
  "main e argv w =
     (if setpgid e < 0 then
        (Exit 1, fprintf_stderr ''Unable to set new process group.\<newline>'' w)
      else
        (case parse_cli_settings e argv w of
           Inl h \<Rightarrow> h
         | Inr w1 \<Rightarrow>
             (let c = config w1;
                  w2 = call (FSEventStreamCreate (paths c) (sinceWhen c) (latency c) (flags c)) w1;
                  w3 = call FSEventStreamScheduleWithRunLoop w2;
                  w4 = call FSEventStreamStart w3;
                  w5 = call CFRunLoopRun w4
              in
              case run_loop e of
                None \<Rightarrow> (Hang, w5)
              | Some batches \<Rightarrow>
                  (case deliver batches w5 of
                     Inl h \<Rightarrow> h
                   | Inr w6 \<Rightarrow>
                       (case deliver (flush_sync e) (call FSEventStreamFlushSync w6) of
                          Inl h \<Rightarrow> h
                        | Inr w7 \<Rightarrow> (Exit 0, call FSEventStreamStop w7))))))"

text \<open>The state in which the process starts: the initialiser of \<open>config\<close>, nothing written.\<close>

definition world_init :: world where
  "world_init = \<lparr> config = config_init, stderr = [], stdout = [], calls = [] \<rparr>"

text \<open>
  The order of the session in the specification: create, schedule, start, run, flush
  synchronously, stop; the stream is created from the fields of a configuration.
\<close>

definition session_calls :: "config \<Rightarrow> native_call list" where
  "session_calls c =
     [FSEventStreamCreate (paths c) (sinceWhen c) (latency c) (flags c),
      FSEventStreamScheduleWithRunLoop,
      FSEventStreamStart,
      CFRunLoopRun,
      FSEventStreamFlushSync,
      FSEventStreamStop]"

text \<open>
  The order on version numbers that ``version \<open>v\<close> meets the minimum \<open>m\<close>'' refers to:
  major number first, then minor number.
\<close>

definition version_at_least :: "int \<times> int \<Rightarrow> int \<times> int \<Rightarrow> bool" where
  "version_at_least v m = (fst m < fst v \<or> (fst v = fst m \<and> snd m \<le> snd v))"

subsection \<open>Concrete environments\<close>

text \<open>
  Environments on which the theorems are exercised. \<open>array_holding n s\<close> is an array of
  \<open>n\<close> bytes that holds the C string \<open>s\<close>, its terminator, and bytes \<open>x\<close> after it.
  In \<open>demo_env\<close> the system is version 10.7, the parser returns the defaults with no
  path arguments, \<open>PATH_MAX\<close> is 1024, only \<open>.\<close> exists (it is \<open>/Users/demo\<close>, the working
  directory), and the run loop returns after one batch of two events.
\<close>

text \<open>
  In \<open>demo_env\<close> the strings \<open>CFStringCreateWithCString\<close> accepts are the well-formed
  UTF-8 byte sequences: \<open>utf8_well_formed\<close> reads the values of the bytes.
\<close>

definition utf8_continuation :: "nat \<Rightarrow> bool" where
  "utf8_continuation b = (128 \<le> b \<and> b \<le> 191)"

fun utf8_well_formed :: "nat list \<Rightarrow> bool" where
  "utf8_well_formed [] = True"
| "utf8_well_formed (b # bs) =
     (if b < 128 then utf8_well_formed bs
      else if 194 \<le> b \<and> b \<le> 223 then
        (case bs of
           c1 # rest \<Rightarrow> utf8_continuation c1 \<and> utf8_well_formed rest
         | _ \<Rightarrow> False)
      else if 224 \<le> b \<and> b \<le> 239 then
        (case bs of
           c1 # c2 # rest \<Rightarrow>
             utf8_continuation c1 \<and> (if b = 224 then 160 \<le> c1 else True) \<and>
             (if b = 237 then c1 \<le> 159 else True) \<and>
             utf8_continuation c2 \<and> utf8_well_formed rest
         | _ \<Rightarrow> False)
      else if 240 \<le> b \<and> b \<le> 244 then
        (case bs of
           c1 # c2 # c3 # rest \<Rightarrow>
             utf8_continuation c1 \<and> (if b = 240 then 144 \<le> c1 else True) \<and>
             (if b = 244 then c1 \<le> 143 else True) \<and>
             utf8_continuation c2 \<and> utf8_continuation c3 \<and> utf8_well_formed rest
         | _ \<Rightarrow> False)
      else False)"

definition array_holding :: "nat \<Rightarrow> string \<Rightarrow> buffer" where
  "array_holding n s = s @ NUL # replicate (n - Suc (length s)) (CHR ''x'')"

definition demo_args :: cli_info where
  "demo_args =
     \<lparr> since_when_arg = kFSEventStreamEventIdSinceNow,
       latency_arg = 0.3,
       format_arg = kFSEventWatchOutputFormatClassic,
       no_defer_flag = 0,
       watch_root_flag = 0,
       ignore_self_flag = 0,
       file_events_flag = 0,
       inputs = [] \<rparr>"

definition demo_env :: env where
  "demo_env =
     \<lparr> setpgid = 0,
       Gestalt = (\<lambda>sel. case sel of
                    gestaltSystemVersionMajor \<Rightarrow> Some 10
                  | gestaltSystemVersionMinor \<Rightarrow> Some 7),
       cli_parser = (\<lambda>argv. Some demo_args),
       PATH_MAX = 1024,
       realpath = (\<lambda>path. if path = ''.'' then (True, array_holding 1024 ''/Users/demo'')
                          else (False, replicate 1024 (CHR ''x''))),
       getcwd = (\<lambda>buf n. (True, array_holding n ''/Users/demo'')),
       CFStringCreateWithCString = (\<lambda>bytes. utf8_well_formed (map of_char bytes)),
       run_loop = Some [(2, [''/tmp/a'', ''/tmp/b''], [0, 0], [1, 2])],
       flush_sync = [] \<rparr>"

text \<open>Two arguments longer than \<open>PATH_MAX\<close>: an absolute and a relative one.\<close>

definition long_absolute :: string where
  "long_absolute = CHR ''/'' # replicate 1024 (CHR ''a'')"

definition long_relative :: string where
  "long_relative = replicate 1024 (CHR ''a'')"

text \<open>
  An absolute argument of 1024 bytes in well-formed UTF-8 whose last character takes
  the two bytes \<open>C3 A9\<close>: the first 1023 bytes end inside that character.
\<close>

definition cut_character_path :: string where
  "cut_character_path = CHR ''/'' # replicate 1021 (CHR ''a'') @ [CHR 0xC3, CHR 0xA9]"

text \<open>
  Variations of \<open>demo_env\<close>: a system whose version cannot be read; version 10.4;
  version 11.0 with \<open>--ignore-self\<close> requested; and the overlong absolute path as the
  only path argument.
\<close>

definition undetected_env :: env where
  "undetected_env = demo_env\<lparr>Gestalt := (\<lambda>sel. None)\<rparr>"

definition version_10_4_env :: env where
  "version_10_4_env =
     demo_env\<lparr>Gestalt := (\<lambda>sel. case sel of
                            gestaltSystemVersionMajor \<Rightarrow> Some 10
                          | gestaltSystemVersionMinor \<Rightarrow> Some 4)\<rparr>"

definition version_11_0_env :: env where
  "version_11_0_env =
     demo_env\<lparr>Gestalt := (\<lambda>sel. case sel of
                            gestaltSystemVersionMajor \<Rightarrow> Some 11
                          | gestaltSystemVersionMinor \<Rightarrow> Some 0),
              cli_parser := (\<lambda>argv. Some (demo_args\<lparr>ignore_self_flag := 1\<rparr>))\<rparr>"

definition long_path_env :: env where
  "long_path_env =
     demo_env\<lparr>cli_parser := (\<lambda>argv. Some (demo_args\<lparr>inputs := [long_absolute]\<rparr>))\<rparr>"

text \<open>Two path arguments: \<open>.\<close>, which exists, and \<open>/tmp/new\<close>, which does not.\<close>

definition two_paths_env :: env where
  "two_paths_env =
     demo_env\<lparr>cli_parser := (\<lambda>argv. Some (demo_args\<lparr>inputs := [''.'', ''/tmp/new'']\<rparr>))\<rparr>"

text \<open>A run loop that never returns.\<close>

definition endless_env :: env where
  "endless_env = demo_env\<lparr>run_loop := None\<rparr>"

section \<open>Properties\<close>

subsection \<open>Event formatters\<close>


lemma printed_append: "printed (xs @ ys) = printed xs @ printed ys"
  by (induction xs rule: printed.induct) simp_all

lemma classic_loop_run:
  "numEvents \<le> length eventPaths \<Longrightarrow> i \<le> numEvents \<Longrightarrow>
   classic_loop i numEvents eventPaths w =
     Inr (w\<lparr>stdout := stdout w @
            map (\<lambda>p. Print (p @ '':'')) (drop i (take numEvents eventPaths))\<rparr>)"
proof (induction i numEvents eventPaths w rule: classic_loop.induct)
  case (1 i numEvents eventPaths w)
  show ?case
  proof (cases "i < numEvents")
    case True
    with "1.prems" have il: "i < length eventPaths" by simp
    from True il have step: "drop i (take numEvents eventPaths) =
        eventPaths ! i # drop (Suc i) (take numEvents eventPaths)"
      by (simp add: Cons_nth_drop_Suc [symmetric])
    from True il "1.prems" have
      "classic_loop (Suc i) numEvents eventPaths (fprintf_stdout (eventPaths ! i @ '':'') w) =
        Inr ((fprintf_stdout (eventPaths ! i @ '':'') w)\<lparr>stdout :=
           stdout (fprintf_stdout (eventPaths ! i @ '':'') w) @
            map (\<lambda>p. Print (p @ '':'')) (drop (Suc i) (take numEvents eventPaths))\<rparr>)"
      by (intro "1.IH") simp_all
    with True il step show ?thesis
      by (subst classic_loop.simps) (simp add: fprintf_stdout_def)
  next
    case False
    with "1.prems" have "i = numEvents" by simp
    then show ?thesis
      by (subst classic_loop.simps) simp
  qed
qed

lemma niw_loop_run:
  "numEvents \<le> length eventPaths \<Longrightarrow> numEvents \<le> length eventFlags \<Longrightarrow>
   numEvents \<le> length eventIds \<Longrightarrow> i \<le> numEvents \<Longrightarrow>
   niw_loop i numEvents eventPaths eventFlags eventIds w =
     Inr (w\<lparr>stdout := stdout w @
            map (\<lambda>k. Print (niw_line (eventFlags ! k) (eventIds ! k) (eventPaths ! k)))
              [i ..< numEvents]\<rparr>)"
proof (induction i numEvents eventPaths eventFlags eventIds w rule: niw_loop.induct)
  case (1 i numEvents eventPaths eventFlags eventIds w)
  show ?case
  proof (cases "i < numEvents")
    case True
    with "1.prems" have il: "i < length eventFlags \<and> i < length eventIds \<and> i < length eventPaths"
      by simp
    let ?w = "fprintf_stdout (niw_line (eventFlags ! i) (eventIds ! i) (eventPaths ! i)) w"
    from True il "1.prems" have
      "niw_loop (Suc i) numEvents eventPaths eventFlags eventIds ?w =
        Inr (?w\<lparr>stdout := stdout ?w @
            map (\<lambda>k. Print (niw_line (eventFlags ! k) (eventIds ! k) (eventPaths ! k)))
              [Suc i ..< numEvents]\<rparr>)"
      by (intro "1.IH") simp_all
    with True il show ?thesis
      by (subst niw_loop.simps) (simp add: fprintf_stdout_def upt_conv_Cons)
  next
    case False
    with "1.prems" have "i = numEvents" by simp
    then show ?thesis
      by (subst niw_loop.simps) simp
  qed
qed


lemma printed_map_Print: "printed (map (\<lambda>x. Print (f x)) xs) = concat (map f xs)"
  by (induction xs) simp_all



lemma digit_value_digit_char: "d < 10 \<Longrightarrow> digit_value (digit_char d) = d"
proof -
  assume "d < 10"
  then have "d \<in> {0, 1, 2, 3, 4, 5, 6, 7, 8, 9}" by auto
  then show ?thesis
    by (auto simp: digit_value_def digit_char_def)
qed

lemma digit_char_in_digits: "d < 10 \<Longrightarrow> digit_char d \<in> set ''0123456789''"
  unfolding digit_char_def by (rule nth_mem) simp

lemma decimal_value_unsigned_decimal: "decimal_value (unsigned_decimal n) = n"
proof (induction n rule: unsigned_decimal.induct)
  case (1 n)
  show ?case
  proof (cases "n < 10")
    case True
    then show ?thesis
      by (subst unsigned_decimal.simps) (simp add: decimal_value_def digit_value_digit_char)
  next
    case False
    with 1 have "decimal_value (unsigned_decimal (n div 10)) = n div 10" by simp
    with False show ?thesis
      by (subst unsigned_decimal.simps)
        (simp add: decimal_value_def digit_value_digit_char)
  qed
qed

lemma unsigned_decimal_digits: "set (unsigned_decimal n) \<subseteq> set ''0123456789''"
proof (induction n rule: unsigned_decimal.induct)
  case (1 n)
  show ?case
  proof (cases "n < 10")
    case True
    then show ?thesis
      using digit_char_in_digits [of n] by (subst unsigned_decimal.simps) simp
  next
    case False
    with 1 have "set (unsigned_decimal (n div 10)) \<subseteq> set ''0123456789''" by simp
    with False show ?thesis
      using digit_char_in_digits [of "n mod 10"] by (subst unsigned_decimal.simps) simp
  qed
qed

lemma unsigned_decimal_nonempty: "unsigned_decimal n \<noteq> []"
  by (subst unsigned_decimal.simps) simp

lemma unsigned_decimal_no_leading_zero:
  "0 < n \<Longrightarrow> hd (unsigned_decimal n) \<noteq> CHR ''0''"
proof (induction n rule: unsigned_decimal.induct)
  case (1 n)
  show ?case
  proof (cases "n < 10")
    case True
    with "1.prems" have "n \<in> {1, 2, 3, 4, 5, 6, 7, 8, 9}" by auto
    then show ?thesis
      by (subst unsigned_decimal.simps) (auto simp: digit_char_def)
  next
    case False
    with 1 have "hd (unsigned_decimal (n div 10)) \<noteq> CHR ''0''" by simp
    with False show ?thesis
      by (subst unsigned_decimal.simps) (simp add: unsigned_decimal_nonempty)
  qed
qed



lemma split_lines_line:
  "CHR 0x0A \<notin> set l \<Longrightarrow>
   split_lines line (l @ CHR 0x0A # rest) = (line @ l) # split_lines [] rest"
  by (induction l arbitrary: line) auto

lemma lines_of_line:
  "CHR 0x0A \<notin> set l \<Longrightarrow> lines_of (l @ ''\<newline>'' @ rest) = l # lines_of rest"
  using split_lines_line [of l "[]" rest] by (simp add: lines_of_def)

lemma lines_of_concat:
  "\<forall>x \<in> set xs. CHR 0x0A \<notin> set (f x) \<Longrightarrow>
   lines_of (concat (map (\<lambda>x. f x @ ''\<newline>'') xs) @ rest) = map f xs @ lines_of rest"
proof (induction xs)
  case Nil
  then show ?case by simp
next
  case (Cons x xs)
  then have "CHR 0x0A \<notin> set (f x)"
    and "lines_of (concat (map (\<lambda>x. f x @ ''\<newline>'') xs) @ rest) = map f xs @ lines_of rest"
    by simp_all
  then show ?case
    using lines_of_line [of "f x" "concat (map (\<lambda>x. f x @ ''\<newline>'') xs) @ rest"]
    by simp
qed

lemma lines_of_newline: "lines_of ''\<newline>'' = [[]]"
  by (simp add: lines_of_def)

lemma no_newline_concat:
  "\<forall>p \<in> set ps. CHR 0x0A \<notin> set p \<Longrightarrow> CHR 0x0A \<notin> set (concat (map (\<lambda>p. p @ '':'') ps))"
  by (induction ps) simp_all

lemma unsigned_decimal_no_newline: "CHR 0x0A \<notin> set (unsigned_decimal n)"
  using unsigned_decimal_digits [of n] by auto

text \<open>
  Claim C6, amended. For a batch of \<open>numEvents\<close> paths, \<open>classic_output_format\<close> prints
  every path in batch order, each followed by a colon, and then one newline. When no
  path holds a newline character, this output is exactly one line: the paths and their
  colons. Under the classic format the callback prints this and flushes, whatever the
  flags and ids of the batch are: they do not reach the output.
\<close>

theorem classic_output_format_batch:
  assumes "length eventPaths = numEvents"
  shows "classic_output_format numEvents eventPaths w =
           Inr (w\<lparr>stdout := stdout w @
                  map (\<lambda>p. Print (p @ '':'')) eventPaths @ [Print ''\<newline>'']\<rparr>)
         \<and> printed (map (\<lambda>p. Print (p @ '':'')) eventPaths @ [Print ''\<newline>'']) =
             concat (map (\<lambda>p. p @ '':'') eventPaths) @ ''\<newline>''
         \<and> ((\<forall>p \<in> set eventPaths. CHR 0x0A \<notin> set p) \<longrightarrow>
              lines_of (printed (map (\<lambda>p. Print (p @ '':'')) eventPaths @ [Print ''\<newline>''])) =
                [concat (map (\<lambda>p. p @ '':'') eventPaths)])
         \<and> (format (config w) = kFSEventWatchOutputFormatClassic \<longrightarrow>
              callback numEvents eventPaths eventFlags eventIds w =
                Inr (w\<lparr>stdout := stdout w @
                  map (\<lambda>p. Print (p @ '':'')) eventPaths @ [Print ''\<newline>'', Flush]\<rparr>)
              \<and> callback numEvents eventPaths eventFlags eventIds w =
                callback numEvents eventPaths eventFlags' eventIds' w)"
proof -
  from assms have run: "classic_loop 0 numEvents eventPaths w =
      Inr (w\<lparr>stdout := stdout w @ map (\<lambda>p. Print (p @ '':'')) eventPaths\<rparr>)"
    using classic_loop_run [of numEvents eventPaths 0 w] by simp
  then have fmt: "classic_output_format numEvents eventPaths w =
      Inr (w\<lparr>stdout := stdout w @
             map (\<lambda>p. Print (p @ '':'')) eventPaths @ [Print ''\<newline>'']\<rparr>)"
    by (simp add: classic_output_format_def fprintf_stdout_def)
  have bytes: "printed (map (\<lambda>p. Print (p @ '':'')) eventPaths @ [Print ''\<newline>'']) =
      concat (map (\<lambda>p. p @ '':'') eventPaths) @ ''\<newline>''"
    by (simp add: printed_append printed_map_Print)
  have line: "(\<forall>p \<in> set eventPaths. CHR 0x0A \<notin> set p) \<longrightarrow>
      lines_of (printed (map (\<lambda>p. Print (p @ '':'')) eventPaths @ [Print ''\<newline>''])) =
        [concat (map (\<lambda>p. p @ '':'') eventPaths)]"
  proof
    assume "\<forall>p \<in> set eventPaths. CHR 0x0A \<notin> set p"
    then have "CHR 0x0A \<notin> set (concat (map (\<lambda>p. p @ '':'') eventPaths))"
      by (rule no_newline_concat)
    then have "lines_of (concat (map (\<lambda>p. p @ '':'') eventPaths) @ ''\<newline>'' @ []) =
        concat (map (\<lambda>p. p @ '':'') eventPaths) # lines_of []"
      by (rule lines_of_line)
    then show "lines_of (printed (map (\<lambda>p. Print (p @ '':'')) eventPaths @ [Print ''\<newline>''])) =
        [concat (map (\<lambda>p. p @ '':'') eventPaths)]"
      by (simp add: bytes lines_of_def)
  qed
  have cb: "format (config w) = kFSEventWatchOutputFormatClassic \<longrightarrow>
      callback numEvents eventPaths eventFlags eventIds w =
        Inr (w\<lparr>stdout := stdout w @
          map (\<lambda>p. Print (p @ '':'')) eventPaths @ [Print ''\<newline>'', Flush]\<rparr>)
      \<and> callback numEvents eventPaths eventFlags eventIds w =
        callback numEvents eventPaths eventFlags' eventIds' w"
    using fmt by (simp add: callback_def fflush_stdout_def)
  from fmt bytes line cb show ?thesis by blast
qed

text \<open>
  The batch of two events \<open>/tmp/a\<close> (flags 0, id 1) and \<open>/tmp/b\<close> (flags 0, id 2):
  the bytes printed are \<open>/tmp/a:/tmp/b:\<close> and a newline, one line.
\<close>

theorem classic_output_format_batch_witness:
  "classic_output_format 2 [''/tmp/a'', ''/tmp/b''] world_init =
     Inr (world_init\<lparr>stdout := [Print ''/tmp/a:'', Print ''/tmp/b:'', Print ''\<newline>'']\<rparr>)
   \<and> printed [Print ''/tmp/a:'', Print ''/tmp/b:'', Print ''\<newline>''] =
       ''/tmp/a:/tmp/b:\<newline>''
   \<and> lines_of ''/tmp/a:/tmp/b:\<newline>'' = [''/tmp/a:/tmp/b:'']
   \<and> callback 2 [''/tmp/a'', ''/tmp/b''] [0, 0] [1, 2] world_init =
     Inr (world_init\<lparr>stdout :=
       [Print ''/tmp/a:'', Print ''/tmp/b:'', Print ''\<newline>'', Flush]\<rparr>)"
  using classic_output_format_batch
    [of "[''/tmp/a'', ''/tmp/b'']" 2 world_init "[0, 0]" "[1, 2]" "[0, 0]" "[1, 2]"]
  by (simp add: world_init_def config_init_def)

text \<open>
  Claim C6 as stated fails on a batch whose path holds a newline, which a file name
  may: for the one path \<open>x\<close>, newline, \<open>y\<close> the output is two lines.
\<close>

theorem classic_output_one_line_counterexample:
  "classic_output_format 1 [''x\<newline>y''] world_init =
     Inr (world_init\<lparr>stdout := [Print ''x\<newline>y:'', Print ''\<newline>'']\<rparr>)
   \<and> printed [Print ''x\<newline>y:'', Print ''\<newline>''] = ''x\<newline>y:\<newline>''
   \<and> lines_of ''x\<newline>y:\<newline>'' = [''x'', ''y:'']"
  using classic_loop_run [of 1 "[''x\<newline>y'']" 0 world_init]
  by (simp add: classic_output_format_def fprintf_stdout_def world_init_def lines_of_def)

text \<open>
  Claim C7, amended. For a batch of \<open>numEvents\<close> events, \<open>niw_output_format\<close> prints for
  every event in batch order the flags in unsigned decimal, a colon, the id in unsigned
  decimal, a colon, the path and a newline, and then one more newline. The decimal
  strings read back as the numbers printed. When no path holds a newline character,
  this output is one line per event followed by one empty line. Under the annotated
  format the callback prints this and flushes.
\<close>

theorem niw_output_format_batch:
  assumes "length eventPaths = numEvents" and "length eventFlags = numEvents"
    and "length eventIds = numEvents"
  shows "niw_output_format numEvents eventPaths eventFlags eventIds w =
           Inr (w\<lparr>stdout := stdout w @
                  map (\<lambda>k. Print (niw_line (eventFlags ! k) (eventIds ! k) (eventPaths ! k)))
                    [0 ..< numEvents] @ [Print ''\<newline>'']\<rparr>)
         \<and> printed (map (\<lambda>k. Print (niw_line (eventFlags ! k) (eventIds ! k) (eventPaths ! k)))
                    [0 ..< numEvents] @ [Print ''\<newline>'']) =
             concat (map (\<lambda>k. unsigned_decimal (unat (eventFlags ! k)) @ '':'' @
                              unsigned_decimal (unat (eventIds ! k)) @ '':'' @
                              eventPaths ! k @ ''\<newline>'') [0 ..< numEvents]) @ ''\<newline>''
         \<and> (\<forall>k < numEvents.
               decimal_value (unsigned_decimal (unat (eventFlags ! k))) = unat (eventFlags ! k) \<and>
               decimal_value (unsigned_decimal (unat (eventIds ! k))) = unat (eventIds ! k))
         \<and> ((\<forall>p \<in> set eventPaths. CHR 0x0A \<notin> set p) \<longrightarrow>
              lines_of (printed
                (map (\<lambda>k. Print (niw_line (eventFlags ! k) (eventIds ! k) (eventPaths ! k)))
                   [0 ..< numEvents] @ [Print ''\<newline>''])) =
                map (\<lambda>k. unsigned_decimal (unat (eventFlags ! k)) @ '':'' @
                         unsigned_decimal (unat (eventIds ! k)) @ '':'' @ eventPaths ! k)
                  [0 ..< numEvents] @ [[]])
         \<and> (format (config w) = kFSEventWatchOutputFormatNIW \<longrightarrow>
              callback numEvents eventPaths eventFlags eventIds w =
                Inr (w\<lparr>stdout := stdout w @
                  map (\<lambda>k. Print (niw_line (eventFlags ! k) (eventIds ! k) (eventPaths ! k)))
                    [0 ..< numEvents] @ [Print ''\<newline>'', Flush]\<rparr>))"
proof -
  let ?body = "\<lambda>k. unsigned_decimal (unat (eventFlags ! k)) @ '':'' @
      unsigned_decimal (unat (eventIds ! k)) @ '':'' @ eventPaths ! k"
  from assms have run: "niw_loop 0 numEvents eventPaths eventFlags eventIds w =
      Inr (w\<lparr>stdout := stdout w @
        map (\<lambda>k. Print (niw_line (eventFlags ! k) (eventIds ! k) (eventPaths ! k)))
          [0 ..< numEvents]\<rparr>)"
    using niw_loop_run [of numEvents eventPaths eventFlags eventIds 0 w] by simp
  then have fmt: "niw_output_format numEvents eventPaths eventFlags eventIds w =
      Inr (w\<lparr>stdout := stdout w @
        map (\<lambda>k. Print (niw_line (eventFlags ! k) (eventIds ! k) (eventPaths ! k)))
          [0 ..< numEvents] @ [Print ''\<newline>'']\<rparr>)"
    by (simp add: niw_output_format_def fprintf_stdout_def)
  have bytes: "printed (map (\<lambda>k. Print (niw_line (eventFlags ! k) (eventIds ! k) (eventPaths ! k)))
        [0 ..< numEvents] @ [Print ''\<newline>'']) =
      concat (map (\<lambda>k. unsigned_decimal (unat (eventFlags ! k)) @ '':'' @
                       unsigned_decimal (unat (eventIds ! k)) @ '':'' @
                       eventPaths ! k @ ''\<newline>'') [0 ..< numEvents]) @ ''\<newline>''"
    by (simp add: printed_append printed_map_Print niw_line_def)
  have dec: "\<forall>k < numEvents.
      decimal_value (unsigned_decimal (unat (eventFlags ! k))) = unat (eventFlags ! k) \<and>
      decimal_value (unsigned_decimal (unat (eventIds ! k))) = unat (eventIds ! k)"
    by (simp add: decimal_value_unsigned_decimal)
  have lines: "(\<forall>p \<in> set eventPaths. CHR 0x0A \<notin> set p) \<longrightarrow>
      lines_of (printed
        (map (\<lambda>k. Print (niw_line (eventFlags ! k) (eventIds ! k) (eventPaths ! k)))
           [0 ..< numEvents] @ [Print ''\<newline>''])) =
        map ?body [0 ..< numEvents] @ [[]]"
  proof
    assume free: "\<forall>p \<in> set eventPaths. CHR 0x0A \<notin> set p"
    have "\<forall>k \<in> set [0 ..< numEvents]. CHR 0x0A \<notin> set (?body k)"
    proof
      fix k
      assume "k \<in> set [0 ..< numEvents]"
      with assms(1) have "eventPaths ! k \<in> set eventPaths"
        by simp
      with free have "CHR 0x0A \<notin> set (eventPaths ! k)"
        by blast
      then show "CHR 0x0A \<notin> set (?body k)"
        by (simp add: unsigned_decimal_no_newline)
    qed
    then have "lines_of (concat (map (\<lambda>k. ?body k @ ''\<newline>'') [0 ..< numEvents]) @ ''\<newline>'') =
        map ?body [0 ..< numEvents] @ lines_of ''\<newline>''"
      by (rule lines_of_concat)
    then show "lines_of (printed
        (map (\<lambda>k. Print (niw_line (eventFlags ! k) (eventIds ! k) (eventPaths ! k)))
           [0 ..< numEvents] @ [Print ''\<newline>''])) =
        map ?body [0 ..< numEvents] @ [[]]"
      by (simp add: bytes lines_of_newline)
  qed
  have cb: "format (config w) = kFSEventWatchOutputFormatNIW \<longrightarrow>
      callback numEvents eventPaths eventFlags eventIds w =
        Inr (w\<lparr>stdout := stdout w @
          map (\<lambda>k. Print (niw_line (eventFlags ! k) (eventIds ! k) (eventPaths ! k)))
            [0 ..< numEvents] @ [Print ''\<newline>'', Flush]\<rparr>)"
    using fmt by (simp add: callback_def fflush_stdout_def)
  from fmt bytes dec lines cb show ?thesis by blast
qed

lemma upt_2: "[0 ..< 2] = [0, Suc 0]"
  by (simp add: upt_conv_Cons)

text \<open>
  The same batch in the annotated format: \<open>0:1:/tmp/a\<close>, \<open>0:2:/tmp/b\<close> and an empty line.
\<close>

theorem niw_output_format_batch_witness:
  "niw_output_format 2 [''/tmp/a'', ''/tmp/b''] [0, 0] [1, 2] world_init =
     Inr (world_init\<lparr>stdout :=
        [Print ''0:1:/tmp/a\<newline>'', Print ''0:2:/tmp/b\<newline>'', Print ''\<newline>'']\<rparr>)
   \<and> printed [Print ''0:1:/tmp/a\<newline>'', Print ''0:2:/tmp/b\<newline>'', Print ''\<newline>''] =
       ''0:1:/tmp/a\<newline>0:2:/tmp/b\<newline>\<newline>''
   \<and> lines_of ''0:1:/tmp/a\<newline>0:2:/tmp/b\<newline>\<newline>'' = [''0:1:/tmp/a'', ''0:2:/tmp/b'', []]"
  using niw_output_format_batch
    [of "[''/tmp/a'', ''/tmp/b'']" 2 "[0, 0]" "[1, 2]" world_init]
  by (simp add: world_init_def config_init_def upt_2 niw_line_def unsigned_decimal.simps
      digit_char_def)

text \<open>
  Claim C7 as stated fails on a batch whose path holds a newline: for the two events
  \<open>a\<close>, newline (flags 0, id 1) and \<open>b\<close> (flags 0, id 2) the first event takes two
  lines, the second of them empty, so an empty line stands inside the batch.
\<close>

theorem niw_output_lines_counterexample:
  "niw_output_format 2 [''a\<newline>'', ''b''] [0, 0] [1, 2] world_init =
     Inr (world_init\<lparr>stdout :=
        [Print ''0:1:a\<newline>\<newline>'', Print ''0:2:b\<newline>'', Print ''\<newline>'']\<rparr>)
   \<and> printed [Print ''0:1:a\<newline>\<newline>'', Print ''0:2:b\<newline>'', Print ''\<newline>''] =
       ''0:1:a\<newline>\<newline>0:2:b\<newline>\<newline>''
   \<and> lines_of ''0:1:a\<newline>\<newline>0:2:b\<newline>\<newline>'' = [''0:1:a'', [], ''0:2:b'', []]"
  using niw_loop_run [of 2 "[''a\<newline>'', ''b'']" "[0, 0]" "[1, 2]" 0 world_init]
  by (simp add: niw_output_format_def fprintf_stdout_def world_init_def lines_of_def upt_2
      niw_line_def unsigned_decimal.simps digit_char_def)

lemma result_world_simps [simp]:
  "result_world (Inl (s, w)) = w" "result_world (Inr w) = w"
  by (simp_all add: result_world_def)

lemma classic_loop_zero: "classic_loop 0 0 eventPaths w = Inr w"
  by (subst classic_loop.simps) simp

lemma niw_loop_zero: "niw_loop 0 0 eventPaths eventFlags eventIds w = Inr w"
  by (subst niw_loop.simps) simp

text \<open>
  Claim C10. On a batch of zero events the callback prints exactly one newline under
  the classic format and exactly one newline under the annotated format, and flushes
  after it. Under any other value of \<open>config.format\<close> the callback prints nothing, for
  every batch, and still flushes.
\<close>

theorem callback_empty_batch:
  "(format (config w) = kFSEventWatchOutputFormatClassic \<longrightarrow>
      callback 0 eventPaths eventFlags eventIds w =
        Inr (w\<lparr>stdout := stdout w @ [Print ''\<newline>'', Flush]\<rparr>))
   \<and> (format (config w) = kFSEventWatchOutputFormatNIW \<longrightarrow>
      callback 0 eventPaths eventFlags eventIds w =
        Inr (w\<lparr>stdout := stdout w @ [Print ''\<newline>'', Flush]\<rparr>))
   \<and> (format (config w) \<noteq> kFSEventWatchOutputFormatClassic \<and>
      format (config w) \<noteq> kFSEventWatchOutputFormatNIW \<longrightarrow>
      callback numEvents eventPaths eventFlags eventIds w =
        Inr (w\<lparr>stdout := stdout w @ [Flush]\<rparr>))"
  by (simp add: callback_def classic_output_format_def niw_output_format_def
      classic_loop_zero niw_loop_zero fprintf_stdout_def fflush_stdout_def)

text \<open>
  The three cases on the initial state: the default (classic) format, the annotated
  format, and a format value that is neither.
\<close>

theorem callback_empty_batch_witness:
  "callback 0 [] [] [] world_init = Inr (world_init\<lparr>stdout := [Print ''\<newline>'', Flush]\<rparr>)
   \<and> callback 0 [] [] []
        (world_init\<lparr>config := config_init\<lparr>format := kFSEventWatchOutputFormatNIW\<rparr>\<rparr>) =
       Inr (world_init\<lparr>config := config_init\<lparr>format := kFSEventWatchOutputFormatNIW\<rparr>,
                       stdout := [Print ''\<newline>'', Flush]\<rparr>)
   \<and> callback 2 [''/tmp/a'', ''/tmp/b''] [0, 0] [1, 2]
        (world_init\<lparr>config := config_init\<lparr>format := kFSEventWatchOutputFormatOther 2\<rparr>\<rparr>) =
       Inr (world_init\<lparr>config := config_init\<lparr>format := kFSEventWatchOutputFormatOther 2\<rparr>,
                       stdout := [Flush]\<rparr>)
   \<and> printed [Print ''\<newline>'', Flush] = ''\<newline>''
   \<and> printed [Flush] = []"
  using callback_empty_batch [of world_init "[]" "[]" "[]" 0]
    callback_empty_batch
      [of "world_init\<lparr>config := config_init\<lparr>format := kFSEventWatchOutputFormatNIW\<rparr>\<rparr>"
        "[]" "[]" "[]" 0]
    callback_empty_batch
      [of "world_init\<lparr>config := config_init\<lparr>format := kFSEventWatchOutputFormatOther 2\<rparr>\<rparr>"
        "[''/tmp/a'', ''/tmp/b'']" "[0, 0]" "[1, 2]" 2]
  by (simp add: world_init_def config_init_def)

subsection \<open>What leaves the recorded calls unchanged\<close>

lemma classic_loop_calls:
  "calls (result_world (classic_loop i numEvents eventPaths w)) = calls w"
proof (induction i numEvents eventPaths w rule: classic_loop.induct)
  case (1 i numEvents eventPaths w)
  then show ?case
    by (subst classic_loop.simps) (simp add: fprintf_stdout_def)
qed

lemma niw_loop_calls:
  "calls (result_world (niw_loop i numEvents eventPaths eventFlags eventIds w)) = calls w"
proof (induction i numEvents eventPaths eventFlags eventIds w rule: niw_loop.induct)
  case (1 i numEvents eventPaths eventFlags eventIds w)
  then show ?case
    by (subst niw_loop.simps) (simp add: fprintf_stdout_def)
qed

lemma callback_calls:
  "calls (result_world (callback numEvents eventPaths eventFlags eventIds w)) = calls w"
  using classic_loop_calls [of 0 numEvents eventPaths w]
    niw_loop_calls [of 0 numEvents eventPaths eventFlags eventIds w]
  by (auto simp: callback_def classic_output_format_def niw_output_format_def
      fprintf_stdout_def fflush_stdout_def split: sum.splits)

lemma deliver_calls: "calls (result_world (deliver batches w)) = calls w"
proof (induction batches arbitrary: w)
  case Nil
  then show ?case by simp
next
  case (Cons b batches)
  obtain n ps fl ids where b: "b = (n, ps, fl, ids)" by (cases b)
  show ?case
    using callback_calls [of n ps fl ids w] Cons.IH
    by (auto simp: b split: sum.splits)
qed

lemma append_path_calls: "calls (result_world (append_path e path w)) = calls w"
  by (simp add: append_path_def split: option.splits)

lemma append_paths_calls: "calls (result_world (append_paths e ps w)) = calls w"
proof (induction ps arbitrary: w)
  case Nil
  then show ?case by simp
next
  case (Cons p ps)
  show ?case
    using append_path_calls [of e p w] Cons.IH
    by (auto split: sum.splits)
qed

lemma parse_cli_settings_calls:
  "calls (result_world (parse_cli_settings e argv w)) = calls w"
proof -
  have a: "\<And>p w'. calls (result_world (append_path e p w')) = calls w'"
    by (rule append_path_calls)
  have b: "\<And>ps w'. calls (result_world (append_paths e ps w')) = calls w'"
    by (rule append_paths_calls)
  show ?thesis
    by (simp add: parse_cli_settings_def Let_def fprintf_stderr_def a b
        split: prod.splits option.splits)
qed

subsection \<open>Path resolution\<close>

lemma cstring_terminated:
  assumes "NUL \<notin> set s"
  shows "cstring (s @ NUL # rest) = Some s"
proof -
  have "takeWhile (\<lambda>c. c \<noteq> NUL) (s @ NUL # rest) = s @ takeWhile (\<lambda>c. c \<noteq> NUL) (NUL # rest)"
    using assms by (intro takeWhile_append2) auto
  then show ?thesis
    by (simp add: cstring_def)
qed

lemma cstring_SomeD:
  assumes "cstring buf = Some s"
  shows "NUL \<notin> set s \<and> (\<exists>rest. buf = s @ NUL # rest)"
proof -
  from assms have mem: "NUL \<in> set buf" and s: "s = takeWhile (\<lambda>c. c \<noteq> NUL) buf"
    by (auto simp: cstring_def split: if_splits)
  from s have no: "NUL \<notin> set s"
    by (auto dest: set_takeWhileD)
  have split: "buf = s @ dropWhile (\<lambda>c. c \<noteq> NUL) buf"
    by (simp add: s)
  from mem have ne: "dropWhile (\<lambda>c. c \<noteq> NUL) buf \<noteq> []"
    by simp
  then have "hd (dropWhile (\<lambda>c. c \<noteq> NUL) buf) = NUL"
    using hd_dropWhile [of "\<lambda>c. c \<noteq> NUL" buf] by simp
  with ne have "dropWhile (\<lambda>c. c \<noteq> NUL) buf = NUL # tl (dropWhile (\<lambda>c. c \<noteq> NUL) buf)"
    by (cases "dropWhile (\<lambda>c. c \<noteq> NUL) buf") simp_all
  with split have "buf = s @ NUL # tl (dropWhile (\<lambda>c. c \<noteq> NUL) buf)" by simp
  with no show ?thesis by blast
qed

lemma strlcpy_cstring:
  assumes "0 < n" and "NUL \<notin> set src" and "NUL \<notin> set pre"
  shows "cstring (strlcpy (pre @ rest) (length pre) src n) = Some (pre @ take (n - 1) src)"
proof -
  from assms(1) have "strlcpy (pre @ rest) (length pre) src n =
      (pre @ take (n - 1) src) @ NUL # drop (length (take (n - 1) src) + 1) rest"
    by (simp add: strlcpy_def store_def)
  moreover from assms(2,3) have "NUL \<notin> set (pre @ take (n - 1) src)"
    by (auto dest: in_set_takeD)
  ultimately show ?thesis
    using cstring_terminated [of "pre @ take (n - 1) src"] by simp
qed

lemma resolved_path_absolute:
  assumes fail: "\<not> fst (realpath e path)" and abs: "first_char path = CHR ''/''"
    and pm: "0 < PATH_MAX e" and nul: "NUL \<notin> set path"
  shows "resolved_path e path = Some (take (PATH_MAX e - 1) path)"
proof -
  obtain buf where rp: "realpath e path = (False, buf)"
    using fail by (cases "realpath e path") simp
  have "cstring (strlcpy ([] @ buf) (length ([]::char list)) path (PATH_MAX e)) =
      Some ([] @ take (PATH_MAX e - 1) path)"
    using pm nul by (intro strlcpy_cstring) simp_all
  then have "cstring (strlcpy buf 0 path (PATH_MAX e)) = Some (take (PATH_MAX e - 1) path)"
    by simp
  with rp abs show ?thesis
    by (simp add: resolved_path_def append_path_fullPath_def)
qed

lemma resolved_path_relative:
  assumes fail: "\<not> fst (realpath e path)" and rel: "first_char path \<noteq> CHR ''/''"
    and cwd: "cstring (snd (getcwd e (snd (realpath e path)) (PATH_MAX e))) = Some cwd"
    and room: "length cwd + 1 < PATH_MAX e" and nul: "NUL \<notin> set path"
  shows "resolved_path e path = Some (take (PATH_MAX e - 1) (cwd @ CHR ''/'' # path))"
proof -
  obtain buf where rp: "realpath e path = (False, buf)"
    using fail by (cases "realpath e path") simp
  define buf' where "buf' = snd (getcwd e buf (PATH_MAX e))"
  from cwd rp have c: "cstring buf' = Some cwd" by (simp add: buf'_def)
  then obtain rest where nocwd: "NUL \<notin> set cwd" and b: "buf' = cwd @ NUL # rest"
    using cstring_SomeD by blast
  from c have len: "strlen buf' = Some (length cwd)" by (simp add: strlen_def)
  have upd: "buf'[length cwd := CHR ''/''] = (cwd @ [CHR ''/'']) @ rest"
    by (simp add: b list_update_append)
  have nopre: "NUL \<notin> set (cwd @ [CHR ''/''])"
    using nocwd by (simp add: NUL_def)
  from room have pos: "0 < PATH_MAX e - (length cwd + 1)" by simp
  have "cstring (strlcpy ((cwd @ [CHR ''/'']) @ rest) (length (cwd @ [CHR ''/''])) path
          (PATH_MAX e - (length cwd + 1))) =
        Some ((cwd @ [CHR ''/'']) @ take (PATH_MAX e - (length cwd + 1) - 1) path)"
    using pos nul nopre by (rule strlcpy_cstring)
  moreover from room have "(cwd @ [CHR ''/'']) @ take (PATH_MAX e - (length cwd + 1) - 1) path =
      take (PATH_MAX e - 1) (cwd @ CHR ''/'' # path)"
    by (simp add: take_Cons')
  ultimately have "cstring (strlcpy (buf'[length cwd := CHR ''/'']) (length cwd + 1) path
      (PATH_MAX e - (length cwd + 1))) = Some (take (PATH_MAX e - 1) (cwd @ CHR ''/'' # path))"
    by (simp add: upd)
  with rp rel len show ?thesis
    by (simp add: resolved_path_def append_path_fullPath_def buf'_def [symmetric] Let_def)
qed

lemma resolved_path_existing:
  "fst (realpath e path) \<Longrightarrow> resolved_path e path = cstring (snd (realpath e path))"
  by (cases "realpath e path") (simp add: resolved_path_def append_path_fullPath_def)

lemma first_char_Cons: "first_char (c # s) = c"
  by (simp add: first_char_def)

lemma demo_realpath_missing:
  "path \<noteq> ''.'' \<Longrightarrow> realpath demo_env path = (False, replicate 1024 (CHR ''x''))"
  by (simp add: demo_env_def)

lemma demo_getcwd: "cstring (snd (getcwd demo_env buf n)) = Some ''/Users/demo''"
  using cstring_terminated [of "''/Users/demo''"]
  by (simp add: demo_env_def array_holding_def NUL_def)

lemma demo_PATH_MAX: "PATH_MAX demo_env = 1024"
  by (simp add: demo_env_def)

lemma utf8_ascii_prefix:
  "\<forall>b \<in> set pre. b < 128 \<Longrightarrow> utf8_well_formed (pre @ bs) = utf8_well_formed bs"
  by (induction pre) simp_all

lemma utf8_ascii: "\<forall>b \<in> set bs. b < 128 \<Longrightarrow> utf8_well_formed bs"
  using utf8_ascii_prefix [of bs "[]"] by simp

lemma demo_accepts:
  "CFStringCreateWithCString demo_env bytes = utf8_well_formed (map of_char bytes)"
  by (simp add: demo_env_def)

lemma demo_accepts_ascii:
  "\<forall>c \<in> set bytes. (of_char c :: nat) < 128 \<Longrightarrow> CFStringCreateWithCString demo_env bytes"
  by (simp add: demo_accepts utf8_ascii)

lemma append_path_accepted:
  assumes "resolved_path e path = Some bytes" and "CFStringCreateWithCString e bytes"
    and "paths (config w) = Some ps"
  shows "append_path e path w = Inr (w\<lparr>config := (config w)\<lparr>paths := Some (ps @ [bytes])\<rparr>\<rparr>)"
  using assms by (simp add: append_path_def)

lemma append_path_rejected:
  assumes "resolved_path e path = Some bytes" and "\<not> CFStringCreateWithCString e bytes"
  shows "append_path e path w = Inl (Crash Null_reference, w)"
  using assms by (simp add: append_path_def)

text \<open>
  Claim C4, amended. When canonicalization fails for an absolute path with fewer than
  \<open>PATH_MAX\<close> bytes that \<open>CFStringCreateWithCString\<close> accepts as UTF-8, the resolved path
  is the input string unchanged, and \<open>append_path\<close> appends it to \<open>config.paths\<close>.
\<close>

theorem append_path_absolute_missing:
  assumes "\<not> fst (realpath e path)" and "first_char path = CHR ''/''"
    and "NUL \<notin> set path" and "length path < PATH_MAX e"
    and "CFStringCreateWithCString e path"
    and "paths (config w) = Some ps"
  shows "resolved_path e path = Some path
         \<and> append_path e path w = Inr (w\<lparr>config := (config w)\<lparr>paths := Some (ps @ [path])\<rparr>\<rparr>)"
proof -
  from assms have "resolved_path e path = Some (take (PATH_MAX e - 1) path)"
    by (intro resolved_path_absolute) simp_all
  with assms(4) have r: "resolved_path e path = Some path" by simp
  with assms(5,6) show ?thesis
    by (simp add: append_path_accepted)
qed

text \<open>The absolute path \<open>/tmp/new\<close>, which does not exist in \<open>demo_env\<close>.\<close>

theorem append_path_absolute_missing_witness:
  "resolved_path demo_env ''/tmp/new'' = Some ''/tmp/new''
   \<and> append_path demo_env ''/tmp/new'' (world_init\<lparr>config := config_init\<lparr>paths := Some []\<rparr>\<rparr>) =
       Inr (world_init\<lparr>config := config_init\<lparr>paths := Some [''/tmp/new'']\<rparr>\<rparr>)"
  using append_path_absolute_missing
    [of demo_env "''/tmp/new''" "world_init\<lparr>config := config_init\<lparr>paths := Some []\<rparr>\<rparr>" "[]"]
  by (simp add: demo_realpath_missing demo_PATH_MAX first_char_Cons NUL_def demo_accepts)

text \<open>
  Claim C4 as stated fails on an absolute path of 1025 bytes, all of them ASCII, that
  does not resolve: \<open>strlcpy\<close> keeps its first 1023 bytes, so the path that
  \<open>append_path\<close> appends is not the input.
\<close>

theorem append_path_absolute_missing_counterexample:
  "\<not> fst (realpath demo_env long_absolute)
   \<and> first_char long_absolute = CHR ''/''
   \<and> CFStringCreateWithCString demo_env long_absolute
   \<and> resolved_path demo_env long_absolute = Some (CHR ''/'' # replicate 1022 (CHR ''a''))
   \<and> resolved_path demo_env long_absolute \<noteq> Some long_absolute
   \<and> append_path demo_env long_absolute (world_init\<lparr>config := config_init\<lparr>paths := Some []\<rparr>\<rparr>) =
       Inr (world_init\<lparr>config := config_init
              \<lparr>paths := Some [CHR ''/'' # replicate 1022 (CHR ''a'')]\<rparr>\<rparr>)"
proof -
  have ok: "CFStringCreateWithCString demo_env long_absolute"
    by (rule demo_accepts_ascii) (simp add: long_absolute_def)
  have ok': "CFStringCreateWithCString demo_env (CHR ''/'' # replicate 1022 (CHR ''a''))"
    by (rule demo_accepts_ascii) simp
  have ne: "long_absolute \<noteq> ''.''"
    by (simp add: long_absolute_def)
  have nul: "NUL \<notin> set long_absolute"
    by (simp add: long_absolute_def NUL_def)
  have fc: "first_char long_absolute = CHR ''/''"
    by (simp add: long_absolute_def first_char_Cons)
  have fail: "\<not> fst (realpath demo_env long_absolute)"
    using ne by (simp add: demo_realpath_missing)
  have "resolved_path demo_env long_absolute = Some (take (PATH_MAX demo_env - 1) long_absolute)"
    using fail fc nul by (intro resolved_path_absolute) (simp_all add: demo_PATH_MAX)
  then have r: "resolved_path demo_env long_absolute = Some (CHR ''/'' # replicate 1022 (CHR ''a''))"
    by (simp add: demo_PATH_MAX long_absolute_def)
  have "length (CHR ''/'' # replicate 1022 (CHR ''a'')) \<noteq> length long_absolute"
    by (simp add: long_absolute_def)
  then have d: "CHR ''/'' # replicate 1022 (CHR ''a'') \<noteq> long_absolute"
    by metis
  have "append_path demo_env long_absolute (world_init\<lparr>config := config_init\<lparr>paths := Some []\<rparr>\<rparr>) =
       Inr (world_init\<lparr>config := config_init
              \<lparr>paths := Some [CHR ''/'' # replicate 1022 (CHR ''a'')]\<rparr>\<rparr>)"
    using append_path_accepted [OF r ok', of "world_init\<lparr>config := config_init\<lparr>paths := Some []\<rparr>\<rparr>" "[]"]
    by simp
  with fail fc ok r d show ?thesis by simp
qed

text \<open>
  Claim C5, amended. When canonicalization fails for a relative path, \<open>getcwd\<close> yields the
  working directory \<open>cwd\<close>, and \<open>cwd\<close>, the separator and the path together have fewer
  than \<open>PATH_MAX\<close> bytes that \<open>CFStringCreateWithCString\<close> accepts as UTF-8, the resolved
  path is \<open>cwd\<close>, a \<open>/\<close> and the input string: a concatenation of strings, with no look
  at the file system. \<open>append_path\<close> appends it to \<open>config.paths\<close>.
\<close>

theorem append_path_relative_missing:
  assumes "\<not> fst (realpath e path)" and "first_char path \<noteq> CHR ''/''"
    and "NUL \<notin> set path"
    and "getcwd e (snd (realpath e path)) (PATH_MAX e) = (True, buf)"
    and "cstring buf = Some cwd"
    and "length cwd + 1 + length path < PATH_MAX e"
    and "CFStringCreateWithCString e (cwd @ ''/'' @ path)"
    and "paths (config w) = Some ps"
  shows "resolved_path e path = Some (cwd @ ''/'' @ path)
         \<and> append_path e path w =
             Inr (w\<lparr>config := (config w)\<lparr>paths := Some (ps @ [cwd @ ''/'' @ path])\<rparr>\<rparr>)"
proof -
  from assms(4,5) have "cstring (snd (getcwd e (snd (realpath e path)) (PATH_MAX e))) = Some cwd"
    by simp
  with assms have "resolved_path e path = Some (take (PATH_MAX e - 1) (cwd @ CHR ''/'' # path))"
    by (intro resolved_path_relative) simp_all
  with assms(6) have r: "resolved_path e path = Some (cwd @ ''/'' @ path)" by simp
  from append_path_accepted [OF r assms(7,8)] r show ?thesis
    by simp
qed

text \<open>The relative path \<open>new/file\<close> in the working directory \<open>/Users/demo\<close>.\<close>

theorem append_path_relative_missing_witness:
  "resolved_path demo_env ''new/file'' = Some ''/Users/demo/new/file''
   \<and> append_path demo_env ''new/file'' (world_init\<lparr>config := config_init\<lparr>paths := Some []\<rparr>\<rparr>) =
       Inr (world_init\<lparr>config := config_init\<lparr>paths := Some [''/Users/demo/new/file'']\<rparr>\<rparr>)"
proof -
  have g: "getcwd demo_env (snd (realpath demo_env ''new/file'')) (PATH_MAX demo_env) =
      (True, array_holding 1024 ''/Users/demo'')"
    by (simp add: demo_env_def)
  have c: "cstring (array_holding 1024 ''/Users/demo'') = Some ''/Users/demo''"
    using demo_getcwd [of "[]" 1024] by (simp add: demo_env_def)
  show ?thesis
    using append_path_relative_missing
      [of demo_env "''new/file''" "array_holding 1024 ''/Users/demo''" "''/Users/demo''"
        "world_init\<lparr>config := config_init\<lparr>paths := Some []\<rparr>\<rparr>" "[]", OF _ _ _ g c]
    by (simp add: demo_realpath_missing demo_PATH_MAX first_char_Cons NUL_def demo_accepts)
qed

text \<open>
  Claim C5 as stated fails on a relative path of 1024 bytes, all of them ASCII, that
  does not resolve: the path that \<open>append_path\<close> appends is the working directory, the
  separator and only the first 1011 bytes of the path.
\<close>

theorem append_path_relative_missing_counterexample:
  "\<not> fst (realpath demo_env long_relative)
   \<and> first_char long_relative \<noteq> CHR ''/''
   \<and> cstring (snd (getcwd demo_env (snd (realpath demo_env long_relative)) (PATH_MAX demo_env))) =
       Some ''/Users/demo''
   \<and> CFStringCreateWithCString demo_env (''/Users/demo'' @ ''/'' @ long_relative)
   \<and> resolved_path demo_env long_relative = Some (''/Users/demo/'' @ replicate 1011 (CHR ''a''))
   \<and> resolved_path demo_env long_relative \<noteq> Some (''/Users/demo'' @ ''/'' @ long_relative)
   \<and> append_path demo_env long_relative (world_init\<lparr>config := config_init\<lparr>paths := Some []\<rparr>\<rparr>) =
       Inr (world_init\<lparr>config := config_init
              \<lparr>paths := Some [''/Users/demo/'' @ replicate 1011 (CHR ''a'')]\<rparr>\<rparr>)"
proof -
  have ok: "CFStringCreateWithCString demo_env (''/Users/demo'' @ ''/'' @ long_relative)"
    by (rule demo_accepts_ascii) (simp add: long_relative_def)
  have ok': "CFStringCreateWithCString demo_env (''/Users/demo/'' @ replicate 1011 (CHR ''a''))"
    by (rule demo_accepts_ascii) simp
  have "length long_relative \<noteq> length ''.''"
    by (simp add: long_relative_def)
  then have ne: "long_relative \<noteq> ''.''"
    by metis
  have nul: "NUL \<notin> set long_relative"
    by (simp add: long_relative_def NUL_def)
  have "replicate (Suc 1023) (CHR ''a'') = CHR ''a'' # replicate 1023 (CHR ''a'')"
    by (rule replicate_Suc)
  then have "first_char long_relative = first_char (CHR ''a'' # replicate 1023 (CHR ''a''))"
    by (simp add: long_relative_def)
  then have fc: "first_char long_relative \<noteq> CHR ''/''"
    by (simp only: first_char_Cons) simp
  have fail: "\<not> fst (realpath demo_env long_relative)"
    using ne by (simp add: demo_realpath_missing)
  have cwd: "cstring (snd (getcwd demo_env (snd (realpath demo_env long_relative))
      (PATH_MAX demo_env))) = Some ''/Users/demo''"
    by (rule demo_getcwd)
  have "resolved_path demo_env long_relative =
      Some (take (PATH_MAX demo_env - 1) (''/Users/demo'' @ CHR ''/'' # long_relative))"
    using fail fc cwd _ nul by (rule resolved_path_relative) (simp add: demo_PATH_MAX)
  then have r: "resolved_path demo_env long_relative =
      Some (''/Users/demo/'' @ replicate 1011 (CHR ''a''))"
    by (simp add: demo_PATH_MAX long_relative_def)
  have "length (''/Users/demo/'' @ replicate 1011 (CHR ''a'')) \<noteq>
      length (''/Users/demo'' @ ''/'' @ long_relative)"
    by (simp add: long_relative_def)
  then have d: "''/Users/demo/'' @ replicate 1011 (CHR ''a'') \<noteq>
      ''/Users/demo'' @ ''/'' @ long_relative"
    by metis
  have a: "append_path demo_env long_relative
        (world_init\<lparr>config := config_init\<lparr>paths := Some []\<rparr>\<rparr>) =
       Inr (world_init\<lparr>config := config_init
              \<lparr>paths := Some [''/Users/demo/'' @ replicate 1011 (CHR ''a'')]\<rparr>\<rparr>)"
    using append_path_accepted [OF r ok', of "world_init\<lparr>config := config_init\<lparr>paths := Some []\<rparr>\<rparr>" "[]"]
    by simp
  from r d have n: "resolved_path demo_env long_relative \<noteq>
      Some (''/Users/demo'' @ ''/'' @ long_relative)"
    by simp
  show ?thesis
    by (intro conjI) (rule fail fc cwd ok r n a)+
qed

subsection \<open>Command-line settings and the session\<close>

lemma classic_loop_stop:
  "classic_loop i numEvents eventPaths w = Inl (s, w') \<Longrightarrow> s = Crash Out_of_bounds"
proof (induction i numEvents eventPaths w rule: classic_loop.induct)
  case (1 i numEvents eventPaths w)
  from "1.prems" show ?case
    by (subst (asm) classic_loop.simps) (auto split: if_splits intro: "1.IH")
qed

lemma niw_loop_stop:
  "niw_loop i numEvents eventPaths eventFlags eventIds w = Inl (s, w') \<Longrightarrow>
   s = Crash Out_of_bounds"
proof (induction i numEvents eventPaths eventFlags eventIds w rule: niw_loop.induct)
  case (1 i numEvents eventPaths eventFlags eventIds w)
  from "1.prems" show ?case
    by (subst (asm) niw_loop.simps) (auto split: if_splits intro: "1.IH")
qed

lemma callback_stop:
  "callback numEvents eventPaths eventFlags eventIds w = Inl (s, w') \<Longrightarrow>
   s = Crash Out_of_bounds"
  by (auto simp: callback_def classic_output_format_def niw_output_format_def
      split: if_splits sum.splits dest: classic_loop_stop niw_loop_stop)

lemma deliver_stop: "deliver batches w = Inl (s, w') \<Longrightarrow> s = Crash Out_of_bounds"
proof (induction batches arbitrary: w)
  case Nil
  then show ?case by simp
next
  case (Cons b batches)
  obtain n ps fl ids where b: "b = (n, ps, fl, ids)" by (cases b)
  from Cons.prems show ?case
    by (auto simp: b split: sum.splits dest: callback_stop Cons.IH)
qed

lemma append_path_stop: "append_path e path w = Inl (s, w') \<Longrightarrow> \<exists>f. s = Crash f"
  by (auto simp: append_path_def split: option.splits if_splits)

lemma append_paths_stop: "append_paths e ps w = Inl (s, w') \<Longrightarrow> \<exists>f. s = Crash f"
proof (induction ps arbitrary: w)
  case Nil
  then show ?case by simp
next
  case (Cons p ps)
  from Cons.prems show ?case
    by (auto split: sum.splits dest: append_path_stop Cons.IH)
qed

lemma parse_cli_settings_stop:
  assumes "parse_cli_settings e argv w = Inl (s, w')"
  shows "s = Exit EXIT_FAILURE \<or> (\<exists>f. s = Crash f)"
  using assms
  by (auto simp: parse_cli_settings_def Let_def
      split: prod.splits option.splits if_splits sum.splits
      dest: append_path_stop append_paths_stop)

lemma append_path_paths:
  assumes "append_path e path w = Inr w'" and "paths (config w) = Some qs"
  shows "\<exists>r. resolved_path e path = Some r \<and> paths (config w') = Some (qs @ [r])"
  using assms by (auto simp: append_path_def split: option.splits if_splits)

lemma append_paths_paths:
  "append_paths e ps w = Inr w' \<Longrightarrow> paths (config w) = Some qs \<Longrightarrow>
   \<exists>rs. paths (config w') = Some (qs @ rs) \<and> map Some rs = map (resolved_path e) ps"
proof (induction ps arbitrary: w qs)
  case Nil
  then show ?case by simp
next
  case (Cons p ps)
  from Cons.prems(1) obtain w1 where 1: "append_path e p w = Inr w1"
    and 2: "append_paths e ps w1 = Inr w'"
    by (auto split: sum.splits)
  from append_path_paths [OF 1 Cons.prems(2)] obtain r
    where r: "resolved_path e p = Some r" and q: "paths (config w1) = Some (qs @ [r])"
    by blast
  from Cons.IH [OF 2 q] obtain rs where "paths (config w') = Some ((qs @ [r]) @ rs)"
    and "map Some rs = map (resolved_path e) ps"
    by blast
  with r have "paths (config w') = Some (qs @ r # rs) \<and>
      map Some (r # rs) = map (resolved_path e) (p # ps)"
    by simp
  then show ?case by blast
qed

lemma append_path_from_empty:
  assumes "append_path e path w5 = Inr w1" and "paths (config w5) = Some []"
  shows "\<exists>ps. paths (config w1) = Some ps \<and> ps \<noteq> [] \<and>
           map Some ps = map (resolved_path e) [path]"
  using append_path_paths [OF assms] by auto

lemma append_paths_from_empty:
  assumes "append_paths e ins w5 = Inr w1" and "paths (config w5) = Some []"
  shows "\<exists>ps. paths (config w1) = Some ps \<and> map Some ps = map (resolved_path e) ins"
  using append_paths_paths [OF assms] by auto

lemma parse_cli_settings_paths:
  assumes "parse_cli_settings e argv w = Inr w1"
  shows "\<exists>args ps. cli_parser e argv = Some args \<and> paths (config w1) = Some ps \<and>
           map Some ps =
             map (resolved_path e) (if length (inputs args) = 0 then [''.''] else inputs args)"
  using assms
  by (auto simp: parse_cli_settings_def Let_def
      split: prod.splits option.splits if_splits sum.splits
      dest!: append_path_from_empty append_paths_from_empty)

lemma classic_output_format_run:
  "numEvents \<le> length eventPaths \<Longrightarrow>
   classic_output_format numEvents eventPaths w =
     Inr (w\<lparr>stdout := stdout w @
            map (\<lambda>p. Print (p @ '':'')) (take numEvents eventPaths) @ [Print ''\<newline>'']\<rparr>)"
  using classic_loop_run [of numEvents eventPaths 0 w]
  by (simp add: classic_output_format_def fprintf_stdout_def)

lemma resolved_path_cong:
  assumes "realpath e = realpath e'" and "getcwd e = getcwd e'" and "PATH_MAX e = PATH_MAX e'"
  shows "resolved_path e path = resolved_path e' path"
  unfolding resolved_path_def append_path_fullPath_def assms ..

lemma world_init_fields:
  "config world_init = config_init" "stderr world_init = []" "stdout world_init = []"
  "calls world_init = []"
  by (simp_all add: world_init_def)

lemma demo_resolved_dot: "resolved_path demo_env ''.'' = Some ''/Users/demo''"
proof -
  have "fst (realpath demo_env ''.'')" by (simp add: demo_env_def)
  then have "resolved_path demo_env ''.'' = cstring (snd (realpath demo_env ''.''))"
    by (rule resolved_path_existing)
  also have "\<dots> = cstring (''/Users/demo'' @ NUL # replicate 1012 (CHR ''x''))"
    by (simp add: demo_env_def array_holding_def)
  also have "\<dots> = Some ''/Users/demo''"
    by (rule cstring_terminated) (simp add: NUL_def)
  finally show ?thesis .
qed

lemma demo_callback:
  "format (config w) = kFSEventWatchOutputFormatClassic \<Longrightarrow>
   callback 2 [''/tmp/a'', ''/tmp/b''] [0, 0] [1, 2] w =
     Inr (w\<lparr>stdout := stdout w @
       [Print ''/tmp/a:'', Print ''/tmp/b:'', Print ''\<newline>'', Flush]\<rparr>)"
  by (simp add: callback_def classic_output_format_run fflush_stdout_def)

lemma demo_parse_cli_settings:
  assumes "Gestalt e = Gestalt demo_env \<or> Gestalt e = (\<lambda>sel. None)"
    and "cli_parser e = cli_parser demo_env"
    and "realpath e = realpath demo_env" and "getcwd e = getcwd demo_env"
    and "PATH_MAX e = PATH_MAX demo_env"
    and "CFStringCreateWithCString e = CFStringCreateWithCString demo_env"
  shows "parse_cli_settings e argv world_init =
      Inr (world_init\<lparr>config := config_init\<lparr>paths := Some [''/Users/demo'']\<rparr>\<rparr>)"
proof -
  have r: "resolved_path e ''.'' = Some ''/Users/demo''"
    using resolved_path_cong [OF assms(3,4,5)] demo_resolved_dot by simp
  have a: "CFStringCreateWithCString e ''/Users/demo''"
    using assms(6) by (simp add: demo_accepts)
  have v: "detected_version e = (10, 7) \<or> detected_version e = (0, 0)"
    using assms(1) by (auto simp: detected_version_def demo_env_def)
  have c: "cli_parser e argv = Some demo_args"
    using assms(2) by (simp add: demo_env_def)
  show ?thesis
    using v c r a
    by (auto simp: parse_cli_settings_def append_path_def demo_args_def world_init_fields
        config_init_def)
qed

lemma demo_main:
  assumes "setpgid e = 0" and "Gestalt e = Gestalt demo_env \<or> Gestalt e = (\<lambda>sel. None)"
    and "cli_parser e = cli_parser demo_env"
    and "realpath e = realpath demo_env" and "getcwd e = getcwd demo_env"
    and "PATH_MAX e = PATH_MAX demo_env"
    and "run_loop e = run_loop demo_env" and "flush_sync e = flush_sync demo_env"
    and "CFStringCreateWithCString e = CFStringCreateWithCString demo_env"
  shows "main e argv world_init =
     (Exit 0,
      world_init
       \<lparr> config := config_init\<lparr>paths := Some [''/Users/demo'']\<rparr>,
         stdout := [Print ''/tmp/a:'', Print ''/tmp/b:'', Print ''\<newline>'', Flush],
         calls := [FSEventStreamCreate (Some [''/Users/demo'']) kFSEventStreamEventIdSinceNow 0.3
                     kFSEventStreamCreateFlagNone,
                   FSEventStreamScheduleWithRunLoop, FSEventStreamStart, CFRunLoopRun,
                   FSEventStreamFlushSync, FSEventStreamStop] \<rparr>)"
proof -
  have p: "parse_cli_settings e argv world_init =
      Inr (world_init\<lparr>config := config_init\<lparr>paths := Some [''/Users/demo'']\<rparr>\<rparr>)"
    using assms(2-6) assms(9) by (rule demo_parse_cli_settings)
  have l: "run_loop e = Some [(2, [''/tmp/a'', ''/tmp/b''], [0, 0], [1, 2])]"
    and f: "flush_sync e = []"
    using assms(7,8) by (simp_all add: demo_env_def)
  show ?thesis
    using assms(1)
    by (simp add: main_def p l f call_def demo_callback world_init_fields config_init_def)
qed

lemma result_world_Inl: "result_world (Inl h) = snd h"
  by (cases h) simp

lemma take_session_calls:
  "take 4 (session_calls c) =
     [FSEventStreamCreate (paths c) (sinceWhen c) (latency c) (flags c),
      FSEventStreamScheduleWithRunLoop, FSEventStreamStart, CFRunLoopRun]"
  "take 5 (session_calls c) =
     [FSEventStreamCreate (paths c) (sinceWhen c) (latency c) (flags c),
      FSEventStreamScheduleWithRunLoop, FSEventStreamStart, CFRunLoopRun,
      FSEventStreamFlushSync]"
  "take 6 (session_calls c) = session_calls c"
  by (simp_all add: session_calls_def)

lemma main_before_parse:
  assumes "setpgid e < 0 \<or> (\<exists>h. parse_cli_settings e argv w = Inl h)"
  shows "calls (snd (main e argv w)) = calls w \<and> fst (main e argv w) \<noteq> Exit 0 \<and>
         fst (main e argv w) \<noteq> Hang"
proof (cases "setpgid e < 0")
  case True
  then show ?thesis
    by (simp add: main_def fprintf_stderr_def)
next
  case False
  with assms obtain s w' where h: "parse_cli_settings e argv w = Inl (s, w')"
    by auto
  from parse_cli_settings_calls [of e argv w] h have "calls w' = calls w"
    by simp
  moreover from parse_cli_settings_stop [OF h] have "s \<noteq> Exit 0 \<and> s \<noteq> Hang"
    by (auto simp: EXIT_FAILURE_def)
  ultimately show ?thesis
    using False h by (simp add: main_def)
qed

lemma main_after_parse:
  assumes "0 \<le> setpgid e" and "parse_cli_settings e argv w = Inr w1"
  shows "(run_loop e = None \<and> fst (main e argv w) = Hang \<and>
            calls (snd (main e argv w)) = calls w @ take 4 (session_calls (config w1)))
       \<or> (run_loop e \<noteq> None \<and> (\<exists>f. fst (main e argv w) = Crash f) \<and>
            (calls (snd (main e argv w)) = calls w @ take 4 (session_calls (config w1)) \<or>
             calls (snd (main e argv w)) = calls w @ take 5 (session_calls (config w1))))
       \<or> (run_loop e \<noteq> None \<and> fst (main e argv w) = Exit 0 \<and>
            calls (snd (main e argv w)) = calls w @ session_calls (config w1))"
proof -
  define c where "c = config w1"
  define w5 where "w5 = call CFRunLoopRun (call FSEventStreamStart
      (call FSEventStreamScheduleWithRunLoop
        (call (FSEventStreamCreate (paths c) (sinceWhen c) (latency c) (flags c)) w1)))"
  from parse_cli_settings_calls [of e argv w] assms(2) have w1: "calls w1 = calls w"
    by simp
  then have c5: "calls w5 = calls w @ take 4 (session_calls c)"
    by (simp add: w5_def call_def take_session_calls)
  have m: "main e argv w =
      (case run_loop e of
         None \<Rightarrow> (Hang, w5)
       | Some batches \<Rightarrow>
           (case deliver batches w5 of
              Inl h \<Rightarrow> h
            | Inr w6 \<Rightarrow>
                (case deliver (flush_sync e) (call FSEventStreamFlushSync w6) of
                   Inl h \<Rightarrow> h
                 | Inr w7 \<Rightarrow> (Exit 0, call FSEventStreamStop w7))))"
    using assms unfolding w5_def c_def by (simp add: main_def Let_def)
  show ?thesis
  proof (cases "run_loop e")
    case None
    with m c5 show ?thesis by (simp add: c_def)
  next
    case (Some batches)
    show ?thesis
    proof (cases "deliver batches w5")
      case (Inl h)
      obtain s w' where h: "h = (s, w')" by (cases h)
      from deliver_calls [of batches w5] Inl h have "calls w' = calls w5" by simp
      moreover from deliver_stop [of batches w5 s w'] Inl h have "s = Crash Out_of_bounds"
        by simp
      ultimately show ?thesis
        using m Some Inl h c5 by (simp add: c_def)
    next
      case (Inr w6)
      from deliver_calls [of batches w5] Inr have c6: "calls w6 = calls w5" by simp
      show ?thesis
      proof (cases "deliver (flush_sync e) (call FSEventStreamFlushSync w6)")
        case (Inl h)
        obtain s w' where h: "h = (s, w')" by (cases h)
        from deliver_calls [of "flush_sync e" "call FSEventStreamFlushSync w6"] Inl h
        have "calls w' = calls w @ take 5 (session_calls c)"
          by (simp add: call_def c6 c5 take_session_calls)
        moreover from deliver_stop [of "flush_sync e" "call FSEventStreamFlushSync w6" s w'] Inl h
        have "s = Crash Out_of_bounds" by simp
        ultimately show ?thesis
          using m Some Inr Inl h by (simp add: c_def)
      next
        case (Inr w7)
        from deliver_calls [of "flush_sync e" "call FSEventStreamFlushSync w6"] Inr
        have "calls (call FSEventStreamStop w7) = calls w @ session_calls c"
          by (simp add: call_def c6 c5 take_session_calls session_calls_def)
        then show ?thesis
          using m Some \<open>deliver batches w5 = Inr w6\<close> Inr by (simp add: c_def)
      qed
    qed
  qed
qed

text \<open>
  Claim C9. In every run of \<open>main\<close> the calls made on the stream and the run loop are an
  initial part of the one sequence create, schedule, start, run, flush synchronously,
  stop, each at most once and in this order. A run that ends with status 0 has made all
  six, and a stop is only ever made as the sixth call, right after the flush. Once the
  settings are parsed: a run loop that never returns leaves exactly the first four
  calls; a run loop that returns is followed by the flush and then the stop, unless a
  callback reads outside its arrays.
\<close>

theorem main_session_order:
  "(\<exists>c n. calls (snd (main e argv w)) = calls w @ take n (session_calls c) \<and>
          (fst (main e argv w) = Exit 0 \<longrightarrow> take n (session_calls c) = session_calls c) \<and>
          (FSEventStreamStop \<in> set (take n (session_calls c)) \<longrightarrow>
             take n (session_calls c) = session_calls c))
   \<and> (\<forall>w1. 0 \<le> setpgid e \<and> parse_cli_settings e argv w = Inr w1 \<longrightarrow>
         (run_loop e = None \<longrightarrow>
            fst (main e argv w) = Hang \<and>
            calls (snd (main e argv w)) = calls w @ take 4 (session_calls (config w1))) \<and>
         (run_loop e \<noteq> None \<and> (\<forall>f. fst (main e argv w) \<noteq> Crash f) \<longrightarrow>
            fst (main e argv w) = Exit 0 \<and>
            calls (snd (main e argv w)) = calls w @ session_calls (config w1)))"
proof (intro conjI allI impI)
  show "\<exists>c n. calls (snd (main e argv w)) = calls w @ take n (session_calls c) \<and>
          (fst (main e argv w) = Exit 0 \<longrightarrow> take n (session_calls c) = session_calls c) \<and>
          (FSEventStreamStop \<in> set (take n (session_calls c)) \<longrightarrow>
             take n (session_calls c) = session_calls c)"
  proof (cases "setpgid e < 0 \<or> (\<exists>h. parse_cli_settings e argv w = Inl h)")
    case True
    from main_before_parse [OF True]
    have "calls (snd (main e argv w)) = calls w @ take 0 (session_calls (config w)) \<and>
          (fst (main e argv w) = Exit 0 \<longrightarrow>
             take 0 (session_calls (config w)) = session_calls (config w)) \<and>
          (FSEventStreamStop \<in> set (take 0 (session_calls (config w))) \<longrightarrow>
             take 0 (session_calls (config w)) = session_calls (config w))"
      by simp
    then show ?thesis by blast
  next
    case False
    then obtain w1 where s: "0 \<le> setpgid e" and p: "parse_cli_settings e argv w = Inr w1"
      by (cases "parse_cli_settings e argv w") auto
    from main_after_parse [OF s p] consider
      (four) "fst (main e argv w) \<noteq> Exit 0"
        "calls (snd (main e argv w)) = calls w @ take 4 (session_calls (config w1))"
    | (five) "fst (main e argv w) \<noteq> Exit 0"
        "calls (snd (main e argv w)) = calls w @ take 5 (session_calls (config w1))"
    | (six) "calls (snd (main e argv w)) = calls w @ take 6 (session_calls (config w1))"
      by (auto simp: take_session_calls)
    then show ?thesis
    proof cases
      case four
      then have "calls (snd (main e argv w)) = calls w @ take 4 (session_calls (config w1)) \<and>
          (fst (main e argv w) = Exit 0 \<longrightarrow>
             take 4 (session_calls (config w1)) = session_calls (config w1)) \<and>
          (FSEventStreamStop \<in> set (take 4 (session_calls (config w1))) \<longrightarrow>
             take 4 (session_calls (config w1)) = session_calls (config w1))"
        by (simp add: take_session_calls)
      then show ?thesis by blast
    next
      case five
      then have "calls (snd (main e argv w)) = calls w @ take 5 (session_calls (config w1)) \<and>
          (fst (main e argv w) = Exit 0 \<longrightarrow>
             take 5 (session_calls (config w1)) = session_calls (config w1)) \<and>
          (FSEventStreamStop \<in> set (take 5 (session_calls (config w1))) \<longrightarrow>
             take 5 (session_calls (config w1)) = session_calls (config w1))"
        by (simp add: take_session_calls)
      then show ?thesis by blast
    next
      case six
      then have "calls (snd (main e argv w)) = calls w @ take 6 (session_calls (config w1)) \<and>
          (fst (main e argv w) = Exit 0 \<longrightarrow>
             take 6 (session_calls (config w1)) = session_calls (config w1)) \<and>
          (FSEventStreamStop \<in> set (take 6 (session_calls (config w1))) \<longrightarrow>
             take 6 (session_calls (config w1)) = session_calls (config w1))"
        by (simp add: take_session_calls)
      then show ?thesis by blast
    qed
  qed
next
  fix w1
  assume a: "0 \<le> setpgid e \<and> parse_cli_settings e argv w = Inr w1"
  {
    assume "run_loop e = None"
    with main_after_parse [of e argv w w1] a
    show "fst (main e argv w) = Hang" by auto
  }
  {
    assume "run_loop e = None"
    with main_after_parse [of e argv w w1] a
    show "calls (snd (main e argv w)) = calls w @ take 4 (session_calls (config w1))" by auto
  }
  {
    assume "run_loop e \<noteq> None \<and> (\<forall>f. fst (main e argv w) \<noteq> Crash f)"
    with main_after_parse [of e argv w w1] a
    show "fst (main e argv w) = Exit 0" by auto
  }
  {
    assume "run_loop e \<noteq> None \<and> (\<forall>f. fst (main e argv w) \<noteq> Crash f)"
    with main_after_parse [of e argv w w1] a
    show "calls (snd (main e argv w)) = calls w @ session_calls (config w1)" by auto
  }
qed

text \<open>
  The run of \<open>demo_env\<close>, whose run loop returns: status 0 and the six calls in order.
  The run of \<open>endless_env\<close>, whose run loop does not return: the first four calls.
\<close>

theorem main_session_order_witness:
  "0 \<le> setpgid demo_env
   \<and> parse_cli_settings demo_env [''fsevent_watch''] world_init =
       Inr (world_init\<lparr>config := config_init\<lparr>paths := Some [''/Users/demo'']\<rparr>\<rparr>)
   \<and> run_loop demo_env \<noteq> None
   \<and> fst (main demo_env [''fsevent_watch''] world_init) = Exit 0
   \<and> calls (snd (main demo_env [''fsevent_watch''] world_init)) =
       [FSEventStreamCreate (Some [''/Users/demo'']) kFSEventStreamEventIdSinceNow 0.3
          kFSEventStreamCreateFlagNone,
        FSEventStreamScheduleWithRunLoop, FSEventStreamStart, CFRunLoopRun,
        FSEventStreamFlushSync, FSEventStreamStop]
   \<and> 0 \<le> setpgid endless_env
   \<and> parse_cli_settings endless_env [''fsevent_watch''] world_init =
       Inr (world_init\<lparr>config := config_init\<lparr>paths := Some [''/Users/demo'']\<rparr>\<rparr>)
   \<and> run_loop endless_env = None
   \<and> fst (main endless_env [''fsevent_watch''] world_init) = Hang
   \<and> calls (snd (main endless_env [''fsevent_watch''] world_init)) =
       [FSEventStreamCreate (Some [''/Users/demo'']) kFSEventStreamEventIdSinceNow 0.3
          kFSEventStreamCreateFlagNone,
        FSEventStreamScheduleWithRunLoop, FSEventStreamStart, CFRunLoopRun]"
proof -
  let ?argv = "[''fsevent_watch'']"
  let ?w1 = "world_init\<lparr>config := config_init\<lparr>paths := Some [''/Users/demo'']\<rparr>\<rparr>"
  have s: "0 \<le> setpgid demo_env" "run_loop demo_env \<noteq> None"
    by (simp_all add: demo_env_def)
  have p: "parse_cli_settings demo_env ?argv world_init = Inr ?w1"
    by (rule demo_parse_cli_settings) simp_all
  have "main demo_env ?argv world_init =
     (Exit 0,
      world_init
       \<lparr> config := config_init\<lparr>paths := Some [''/Users/demo'']\<rparr>,
         stdout := [Print ''/tmp/a:'', Print ''/tmp/b:'', Print ''\<newline>'', Flush],
         calls := [FSEventStreamCreate (Some [''/Users/demo'']) kFSEventStreamEventIdSinceNow 0.3
                     kFSEventStreamCreateFlagNone,
                   FSEventStreamScheduleWithRunLoop, FSEventStreamStart, CFRunLoopRun,
                   FSEventStreamFlushSync, FSEventStreamStop] \<rparr>)"
    by (rule demo_main) (simp_all add: demo_env_def)
  then have e: "fst (main demo_env ?argv world_init) = Exit 0"
    by simp
  then have nc: "\<forall>f. fst (main demo_env ?argv world_init) \<noteq> Crash f"
    by simp
  from main_session_order [of demo_env ?argv world_init] s p nc
  have "calls (snd (main demo_env ?argv world_init)) =
      calls world_init @ session_calls (config ?w1)"
    by blast
  then have c: "calls (snd (main demo_env ?argv world_init)) =
       [FSEventStreamCreate (Some [''/Users/demo'']) kFSEventStreamEventIdSinceNow 0.3
          kFSEventStreamCreateFlagNone,
        FSEventStreamScheduleWithRunLoop, FSEventStreamStart, CFRunLoopRun,
        FSEventStreamFlushSync, FSEventStreamStop]"
    by (simp add: session_calls_def world_init_fields config_init_def)
  have s': "0 \<le> setpgid endless_env" "run_loop endless_env = None"
    by (simp_all add: endless_env_def demo_env_def)
  have p': "parse_cli_settings endless_env ?argv world_init = Inr ?w1"
    by (rule demo_parse_cli_settings) (simp_all add: endless_env_def)
  from main_session_order [of endless_env ?argv world_init] s' p'
  have h: "fst (main endless_env ?argv world_init) = Hang"
    and "calls (snd (main endless_env ?argv world_init)) =
      calls world_init @ take 4 (session_calls (config ?w1))"
    by blast+
  then have c': "calls (snd (main endless_env ?argv world_init)) =
       [FSEventStreamCreate (Some [''/Users/demo'']) kFSEventStreamEventIdSinceNow 0.3
          kFSEventStreamCreateFlagNone,
        FSEventStreamScheduleWithRunLoop, FSEventStreamStart, CFRunLoopRun]"
    by (simp add: take_session_calls world_init_fields config_init_def)
  from s p e c s' p' h c' show ?thesis by blast
qed

lemma two_paths_parse:
  "parse_cli_settings two_paths_env [''fsevent_watch'', ''.'', ''/tmp/new''] world_init =
     Inr (world_init\<lparr>config := config_init\<lparr>paths := Some [''/Users/demo'', ''/tmp/new'']\<rparr>\<rparr>)"
proof -
  have same: "realpath two_paths_env = realpath demo_env" "getcwd two_paths_env = getcwd demo_env"
    "PATH_MAX two_paths_env = PATH_MAX demo_env"
    by (simp_all add: two_paths_env_def)
  have a: "CFStringCreateWithCString two_paths_env ''/Users/demo''"
    "CFStringCreateWithCString two_paths_env ''/tmp/new''"
    by (simp_all add: two_paths_env_def demo_accepts)
  have r1: "resolved_path two_paths_env ''.'' = Some ''/Users/demo''"
    using resolved_path_cong [OF same] demo_resolved_dot by simp
  have "resolved_path demo_env ''/tmp/new'' = Some (take (PATH_MAX demo_env - 1) ''/tmp/new'')"
    by (rule resolved_path_absolute)
      (simp_all add: demo_realpath_missing demo_PATH_MAX first_char_Cons NUL_def)
  then have r2: "resolved_path two_paths_env ''/tmp/new'' = Some ''/tmp/new''"
    using resolved_path_cong [OF same] by (simp add: demo_PATH_MAX)
  have v: "detected_version two_paths_env = (10, 7)"
    by (simp add: detected_version_def two_paths_env_def demo_env_def)
  have c: "cli_parser two_paths_env [''fsevent_watch'', ''.'', ''/tmp/new''] =
      Some (demo_args\<lparr>inputs := [''.'', ''/tmp/new'']\<rparr>)"
    by (simp add: two_paths_env_def)
  show ?thesis
    by (simp add: parse_cli_settings_def v c append_path_def r1 r2 a demo_args_def
        world_init_fields config_init_def)
qed

text \<open>
  Claim C8. When \<open>parse_cli_settings\<close> returns, which is when the session starts,
  \<open>config.paths\<close> is an array that is not empty: it holds the resolution of \<open>.\<close> alone
  when there are no path arguments, and otherwise the resolutions of all path arguments
  in their order. This array is the one \<open>main\<close> passes to \<open>FSEventStreamCreate\<close>, its first
  call.
\<close>

theorem paths_nonempty_at_session_start:
  assumes "parse_cli_settings e argv w = Inr w1"
  shows "\<exists>args ps. cli_parser e argv = Some args \<and> paths (config w1) = Some ps \<and> ps \<noteq> [] \<and>
           map Some ps =
             map (resolved_path e) (if length (inputs args) = 0 then [''.''] else inputs args) \<and>
           (0 \<le> setpgid e \<longrightarrow>
              (\<exists>rest. calls (snd (main e argv w)) =
                 calls w @ FSEventStreamCreate (Some ps) (sinceWhen (config w1))
                   (latency (config w1)) (flags (config w1)) # rest))"
proof -
  from parse_cli_settings_paths [OF assms] obtain args ps
    where a: "cli_parser e argv = Some args" and p: "paths (config w1) = Some ps"
      and m: "map Some ps =
        map (resolved_path e) (if length (inputs args) = 0 then [''.''] else inputs args)"
    by blast
  from m have "length ps =
      length (if length (inputs args) = 0 then [''.''] else inputs args)"
    using length_map by metis
  then have ne: "ps \<noteq> []"
    by (auto split: if_splits)
  have "0 \<le> setpgid e \<longrightarrow>
      (\<exists>rest. calls (snd (main e argv w)) =
         calls w @ FSEventStreamCreate (Some ps) (sinceWhen (config w1))
           (latency (config w1)) (flags (config w1)) # rest)"
  proof
    assume "0 \<le> setpgid e"
    from main_after_parse [OF this assms] show "\<exists>rest. calls (snd (main e argv w)) =
         calls w @ FSEventStreamCreate (Some ps) (sinceWhen (config w1))
           (latency (config w1)) (flags (config w1)) # rest"
      by (auto simp: take_session_calls session_calls_def p)
  qed
  with a p ne m show ?thesis by blast
qed

text \<open>
  No path arguments in \<open>demo_env\<close>: the one path is the working directory. Two path
  arguments in \<open>two_paths_env\<close>: both are resolved, in their order.
\<close>

theorem paths_nonempty_at_session_start_witness:
  "parse_cli_settings demo_env [''fsevent_watch''] world_init =
     Inr (world_init\<lparr>config := config_init\<lparr>paths := Some [''/Users/demo'']\<rparr>\<rparr>)
   \<and> cli_parser demo_env [''fsevent_watch''] = Some demo_args
   \<and> inputs demo_args = []
   \<and> map (resolved_path demo_env) [''.''] = [Some ''/Users/demo'']
   \<and> parse_cli_settings two_paths_env [''fsevent_watch'', ''.'', ''/tmp/new''] world_init =
     Inr (world_init\<lparr>config := config_init\<lparr>paths := Some [''/Users/demo'', ''/tmp/new'']\<rparr>\<rparr>)
   \<and> cli_parser two_paths_env [''fsevent_watch'', ''.'', ''/tmp/new''] =
       Some (demo_args\<lparr>inputs := [''.'', ''/tmp/new'']\<rparr>)
   \<and> map (resolved_path two_paths_env) [''.'', ''/tmp/new''] =
       [Some ''/Users/demo'', Some ''/tmp/new'']"
proof -
  have p: "parse_cli_settings demo_env [''fsevent_watch''] world_init =
     Inr (world_init\<lparr>config := config_init\<lparr>paths := Some [''/Users/demo'']\<rparr>\<rparr>)"
    by (rule demo_parse_cli_settings) simp_all
  have c: "cli_parser demo_env [''fsevent_watch''] = Some demo_args"
    by (simp add: demo_env_def)
  have i: "inputs demo_args = []"
    by (simp add: demo_args_def)
  have c2: "cli_parser two_paths_env [''fsevent_watch'', ''.'', ''/tmp/new''] =
      Some (demo_args\<lparr>inputs := [''.'', ''/tmp/new'']\<rparr>)"
    by (simp add: two_paths_env_def)
  from paths_nonempty_at_session_start [OF p]
  have one: "map (resolved_path demo_env) [''.''] = [Some ''/Users/demo'']"
    by (auto simp: c i)
  from paths_nonempty_at_session_start [OF two_paths_parse]
  have two: "map (resolved_path two_paths_env) [''.'', ''/tmp/new''] =
      [Some ''/Users/demo'', Some ''/tmp/new'']"
    by (auto simp: c2)
  from p c i one two_paths_parse c2 two show ?thesis by blast
qed

text \<open>
  Claim C3, amended. When the detected version has major number 10 and a minor number
  below 5, the program refuses to start: \<open>parse_cli_settings\<close> prints the diagnostic and
  exits with \<open>EXIT_FAILURE\<close>, which is not 0, before the arguments are parsed; \<open>main\<close>
  ends with that status, a diagnostic on standard error, \<open>config\<close> untouched and no call
  made on the stream.
\<close>

theorem refuses_on_10_below_5:
  assumes "fst (detected_version e) = 10" and "sint (snd (detected_version e)) < 5"
  shows "parse_cli_settings e argv w =
           Inl (Exit EXIT_FAILURE,
                fprintf_stderr
                  ''The FSEvents API is unavailable on this version of macos!\<newline>'' w)
         \<and> fst (main e argv w) = Exit EXIT_FAILURE
         \<and> EXIT_FAILURE \<noteq> 0
         \<and> stderr (snd (main e argv w)) \<noteq> stderr w
         \<and> config (snd (main e argv w)) = config w
         \<and> calls (snd (main e argv w)) = calls w"
proof -
  obtain major minor where d: "detected_version e = (major, minor)"
    by (cases "detected_version e")
  with assms have "major = 10" and "sint minor < 5"
    by simp_all
  with d have p: "parse_cli_settings e argv w =
      Inl (Exit EXIT_FAILURE,
           fprintf_stderr ''The FSEvents API is unavailable on this version of macos!\<newline>'' w)"
    by (simp add: parse_cli_settings_def)
  then show ?thesis
    by (simp add: main_def fprintf_stderr_def EXIT_FAILURE_def)
qed

text \<open>Version 10.4.\<close>

theorem refuses_on_10_below_5_witness:
  "detected_version version_10_4_env = (10, 4)
   \<and> main version_10_4_env [''fsevent_watch''] world_init =
       (Exit EXIT_FAILURE,
        world_init\<lparr>stderr :=
          [''The FSEvents API is unavailable on this version of macos!\<newline>'']\<rparr>)"
proof -
  have v: "detected_version version_10_4_env = (10, 4)"
    by (simp add: detected_version_def version_10_4_env_def)
  have s: "0 \<le> setpgid version_10_4_env"
    by (simp add: version_10_4_env_def demo_env_def)
  from refuses_on_10_below_5 [of version_10_4_env "[''fsevent_watch'']" world_init] v s
  show ?thesis
    by (simp add: main_def fprintf_stderr_def world_init_fields)
qed

text \<open>
  Claim C3 as stated fails when the version cannot be read: both numbers are then 0,
  which is below 10.5, and the program starts, runs its session and ends with status 0.
\<close>

theorem refuses_below_10_5_counterexample:
  "Gestalt undetected_env gestaltSystemVersionMajor = None
   \<and> Gestalt undetected_env gestaltSystemVersionMinor = None
   \<and> detected_version undetected_env = (0, 0)
   \<and> \<not> version_at_least (0, 0) (10, 5)
   \<and> main undetected_env [''fsevent_watch''] world_init =
     (Exit 0,
      world_init
       \<lparr> config := config_init\<lparr>paths := Some [''/Users/demo'']\<rparr>,
         stdout := [Print ''/tmp/a:'', Print ''/tmp/b:'', Print ''\<newline>'', Flush],
         calls := [FSEventStreamCreate (Some [''/Users/demo'']) kFSEventStreamEventIdSinceNow 0.3
                     kFSEventStreamCreateFlagNone,
                   FSEventStreamScheduleWithRunLoop, FSEventStreamStart, CFRunLoopRun,
                   FSEventStreamFlushSync, FSEventStreamStop] \<rparr>)"
proof -
  have g: "Gestalt undetected_env = (\<lambda>sel. None)"
    by (simp add: undetected_env_def)
  have v: "detected_version undetected_env = (0, 0)"
    by (simp add: detected_version_def g)
  have m: "main undetected_env [''fsevent_watch''] world_init =
     (Exit 0,
      world_init
       \<lparr> config := config_init\<lparr>paths := Some [''/Users/demo'']\<rparr>,
         stdout := [Print ''/tmp/a:'', Print ''/tmp/b:'', Print ''\<newline>'', Flush],
         calls := [FSEventStreamCreate (Some [''/Users/demo'']) kFSEventStreamEventIdSinceNow 0.3
                     kFSEventStreamCreateFlagNone,
                   FSEventStreamScheduleWithRunLoop, FSEventStreamStart, CFRunLoopRun,
                   FSEventStreamFlushSync, FSEventStreamStop] \<rparr>)"
    by (rule demo_main) (simp_all add: undetected_env_def demo_env_def)
  show ?thesis
    using g v m by (simp add: version_at_least_def)
qed

subsection \<open>The version tests of the optional flags\<close>

text \<open>
  What lines 115--131 do. A requested flag that the test rejects ends the process with
  its diagnostic and \<open>EXIT_FAILURE\<close>, and no call on the stream has been made. With major
  number 10 and the minor number at or above the minimum, the flag's bit is set in
  \<open>config.flags\<close> when the settings are returned.
\<close>

lemma or_and_absorb: "(a OR b) AND b = (b :: 32 word)"
  by (rule bit_eqI) (auto simp: bit_and_iff bit_or_iff)

lemma or_or_and_absorb: "((a OR b) OR c) AND b = (b :: 32 word)"
  by (rule bit_eqI) (auto simp: bit_and_iff bit_or_iff)

lemma append_path_flags: "append_path e path w = Inr w' \<Longrightarrow> flags (config w') = flags (config w)"
  by (auto simp: append_path_def split: option.splits if_splits)

lemma append_paths_flags:
  "append_paths e ps w = Inr w' \<Longrightarrow> flags (config w') = flags (config w)"
proof (induction ps arbitrary: w)
  case Nil
  then show ?case by simp
next
  case (Cons p ps)
  then show ?case
    by (auto split: sum.splits dest: append_path_flags)
qed

lemma ignore_self_denied:
  assumes "detected_version e = (major, minor)" and "\<not> (major = 10 \<and> sint minor < 5)"
    and "cli_parser e argv = Some args" and "ignore_self_flag args \<noteq> 0"
    and "\<not> (major = 10 \<and> 6 \<le> sint minor)"
  shows "\<exists>w'. parse_cli_settings e argv w = Inl (Exit EXIT_FAILURE, w') \<and>
           stderr w' = stderr w @ [''MacOSX 10.6 or later is required for --ignore-self\<newline>''] \<and>
           calls w' = calls w"
  using assms by (auto simp: parse_cli_settings_def Let_def fprintf_stderr_def)

lemma file_events_denied:
  assumes "detected_version e = (major, minor)" and "\<not> (major = 10 \<and> sint minor < 5)"
    and "cli_parser e argv = Some args" and "ignore_self_flag args = 0"
    and "file_events_flag args \<noteq> 0" and "\<not> (major = 10 \<and> 7 \<le> sint minor)"
  shows "\<exists>w'. parse_cli_settings e argv w = Inl (Exit EXIT_FAILURE, w') \<and>
           stderr w' = stderr w @ [''MacOSX 10.7 or later required for --file-events\<newline>''] \<and>
           calls w' = calls w"
  using assms by (auto simp: parse_cli_settings_def Let_def fprintf_stderr_def)

lemma ignore_self_allowed_on_major_10:
  assumes "detected_version e = (10, minor)" and "6 \<le> sint minor"
    and "cli_parser e argv = Some args" and "ignore_self_flag args \<noteq> 0"
    and "parse_cli_settings e argv w = Inr w1"
  shows "flags (config w1) AND kFSEventStreamCreateFlagIgnoreSelf =
         kFSEventStreamCreateFlagIgnoreSelf"
  using assms
  by (auto simp: parse_cli_settings_def Let_def or_and_absorb or_or_and_absorb
      split: if_splits dest!: append_path_flags append_paths_flags)

lemma file_events_allowed_on_major_10:
  assumes "detected_version e = (10, minor)" and "7 \<le> sint minor"
    and "cli_parser e argv = Some args" and "file_events_flag args \<noteq> 0"
    and "parse_cli_settings e argv w = Inr w1"
  shows "flags (config w1) AND kFSEventStreamCreateFlagFileEvents =
         kFSEventStreamCreateFlagFileEvents"
  using assms
  by (auto simp: parse_cli_settings_def Let_def or_and_absorb or_or_and_absorb
      split: if_splits dest!: append_path_flags append_paths_flags)

text \<open>
  Claim C1 at version 11.0, which meets the minimum 10.6: with \<open>--ignore-self\<close> requested
  the program prints that 10.6 or later is required and exits with \<open>EXIT_FAILURE\<close>.
\<close>

theorem ignore_self_denied_on_11_0:
  "detected_version version_11_0_env = (11, 0)
   \<and> version_at_least (11, 0) (10, 6)
   \<and> (\<exists>args. cli_parser version_11_0_env [''fsevent_watch'', ''--ignore-self''] = Some args \<and>
         ignore_self_flag args \<noteq> 0)
   \<and> main version_11_0_env [''fsevent_watch'', ''--ignore-self''] world_init =
       (Exit EXIT_FAILURE,
        world_init
         \<lparr> config := config_init\<lparr>paths := Some []\<rparr>,
           stderr := [''MacOSX 10.6 or later is required for --ignore-self\<newline>''] \<rparr>)"
proof -
  have v: "detected_version version_11_0_env = (11, 0)"
    by (simp add: detected_version_def version_11_0_env_def)
  have c: "cli_parser version_11_0_env [''fsevent_watch'', ''--ignore-self''] =
      Some (demo_args\<lparr>ignore_self_flag := 1\<rparr>)"
    by (simp add: version_11_0_env_def)
  have p: "parse_cli_settings version_11_0_env [''fsevent_watch'', ''--ignore-self''] world_init =
      Inl (Exit EXIT_FAILURE,
        world_init
         \<lparr> config := config_init\<lparr>paths := Some []\<rparr>,
           stderr := [''MacOSX 10.6 or later is required for --ignore-self\<newline>''] \<rparr>)"
    by (simp add: parse_cli_settings_def v c demo_args_def fprintf_stderr_def world_init_fields
        config_init_def)
  have s: "setpgid version_11_0_env = 0"
    by (simp add: version_11_0_env_def demo_env_def)
  show ?thesis
    using v c by (simp add: main_def p s version_at_least_def)
qed

subsection \<open>Paths that do not fit\<close>

text \<open>
  Claim C2, amended. For a path that does not canonicalize and whose resolved form does
  not fit into \<open>PATH_MAX\<close> bytes, path resolution has no length test and no error exit:
  the resolved form is cut to its first \<open>PATH_MAX - 1\<close> bytes, and when
  \<open>CFStringCreateWithCString\<close> accepts these bytes as UTF-8, \<open>append_path\<close> returns with the
  truncated path appended to \<open>config.paths\<close>. For an absolute path the resolved form is
  the path itself; for a relative path it is the working directory, a \<open>/\<close> and the path,
  where the working directory and the separator take fewer than \<open>PATH_MAX\<close> bytes.
\<close>

theorem append_path_overlong_truncates:
  assumes "\<not> fst (realpath e path)" and "NUL \<notin> set path" and "paths (config w) = Some ps"
  shows "(first_char path = CHR ''/'' \<and> 0 < PATH_MAX e \<and> PATH_MAX e \<le> length path \<and>
          CFStringCreateWithCString e (take (PATH_MAX e - 1) path) \<longrightarrow>
            resolved_path e path = Some (take (PATH_MAX e - 1) path) \<and>
            append_path e path w =
              Inr (w\<lparr>config := (config w)\<lparr>paths := Some (ps @ [take (PATH_MAX e - 1) path])\<rparr>\<rparr>))
       \<and> (first_char path \<noteq> CHR ''/'' \<and>
          cstring (snd (getcwd e (snd (realpath e path)) (PATH_MAX e))) = Some cwd \<and>
          length cwd + 1 < PATH_MAX e \<and> PATH_MAX e \<le> length cwd + 1 + length path \<and>
          CFStringCreateWithCString e (take (PATH_MAX e - 1) (cwd @ ''/'' @ path)) \<longrightarrow>
            resolved_path e path = Some (take (PATH_MAX e - 1) (cwd @ ''/'' @ path)) \<and>
            append_path e path w =
              Inr (w\<lparr>config := (config w)
                     \<lparr>paths := Some (ps @ [take (PATH_MAX e - 1) (cwd @ ''/'' @ path)])\<rparr>\<rparr>))"
proof (intro conjI impI)
  assume a: "first_char path = CHR ''/'' \<and> 0 < PATH_MAX e \<and> PATH_MAX e \<le> length path \<and>
      CFStringCreateWithCString e (take (PATH_MAX e - 1) path)"
  with assms(1,2) show r: "resolved_path e path = Some (take (PATH_MAX e - 1) path)"
    by (intro resolved_path_absolute) simp_all
  from a have "CFStringCreateWithCString e (take (PATH_MAX e - 1) path)"
    by simp
  from append_path_accepted [OF r this assms(3)] show "append_path e path w =
      Inr (w\<lparr>config := (config w)\<lparr>paths := Some (ps @ [take (PATH_MAX e - 1) path])\<rparr>\<rparr>)" .
next
  assume a: "first_char path \<noteq> CHR ''/'' \<and>
      cstring (snd (getcwd e (snd (realpath e path)) (PATH_MAX e))) = Some cwd \<and>
      length cwd + 1 < PATH_MAX e \<and> PATH_MAX e \<le> length cwd + 1 + length path \<and>
      CFStringCreateWithCString e (take (PATH_MAX e - 1) (cwd @ ''/'' @ path))"
  with assms(1,2) have "resolved_path e path = Some (take (PATH_MAX e - 1) (cwd @ CHR ''/'' # path))"
    by (intro resolved_path_relative) simp_all
  then show r: "resolved_path e path = Some (take (PATH_MAX e - 1) (cwd @ ''/'' @ path))"
    by simp
  from a have "CFStringCreateWithCString e (take (PATH_MAX e - 1) (cwd @ ''/'' @ path))"
    by simp
  from append_path_accepted [OF r this assms(3)] show "append_path e path w =
      Inr (w\<lparr>config := (config w)
             \<lparr>paths := Some (ps @ [take (PATH_MAX e - 1) (cwd @ ''/'' @ path)])\<rparr>\<rparr>)" .
qed

lemma long_absolute_facts:
  "long_absolute \<noteq> ''.''" "NUL \<notin> set long_absolute" "first_char long_absolute = CHR ''/''"
  "length long_absolute = 1025" "take 1023 long_absolute = CHR ''/'' # replicate 1022 (CHR ''a'')"
  by (simp_all add: long_absolute_def NUL_def first_char_Cons)

lemma long_relative_facts:
  "long_relative \<noteq> ''.''" "NUL \<notin> set long_relative" "first_char long_relative \<noteq> CHR ''/''"
  "length long_relative = 1024"
  "take 1011 long_relative = replicate 1011 (CHR ''a'')"
proof -
  have "length long_relative \<noteq> length ''.''"
    by (simp add: long_relative_def)
  then show "long_relative \<noteq> ''.''"
    by metis
  show "NUL \<notin> set long_relative"
    by (simp add: long_relative_def NUL_def)
  have "replicate (Suc 1023) (CHR ''a'') = CHR ''a'' # replicate 1023 (CHR ''a'')"
    by (rule replicate_Suc)
  then have "first_char long_relative = first_char (CHR ''a'' # replicate 1023 (CHR ''a''))"
    by (simp add: long_relative_def)
  then show "first_char long_relative \<noteq> CHR ''/''"
    by (simp only: first_char_Cons) simp
  show "length long_relative = 1024"
    by (simp add: long_relative_def)
  show "take 1011 long_relative = replicate 1011 (CHR ''a'')"
    by (simp add: long_relative_def)
qed

text \<open>The overlong absolute and the overlong relative path in \<open>demo_env\<close>.\<close>

theorem append_path_overlong_truncates_witness:
  "CFStringCreateWithCString demo_env (CHR ''/'' # replicate 1022 (CHR ''a''))
   \<and> CFStringCreateWithCString demo_env (''/Users/demo/'' @ replicate 1011 (CHR ''a''))
   \<and> resolved_path demo_env long_absolute = Some (CHR ''/'' # replicate 1022 (CHR ''a''))
   \<and> append_path demo_env long_absolute (world_init\<lparr>config := config_init\<lparr>paths := Some []\<rparr>\<rparr>) =
       Inr (world_init\<lparr>config := config_init
              \<lparr>paths := Some [CHR ''/'' # replicate 1022 (CHR ''a'')]\<rparr>\<rparr>)
   \<and> resolved_path demo_env long_relative = Some (''/Users/demo/'' @ replicate 1011 (CHR ''a''))
   \<and> append_path demo_env long_relative (world_init\<lparr>config := config_init\<lparr>paths := Some []\<rparr>\<rparr>) =
       Inr (world_init\<lparr>config := config_init
              \<lparr>paths := Some [''/Users/demo/'' @ replicate 1011 (CHR ''a'')]\<rparr>\<rparr>)"
proof -
  let ?w = "world_init\<lparr>config := config_init\<lparr>paths := Some []\<rparr>\<rparr>"
  have p: "paths (config ?w) = Some []" by simp
  have fa: "\<not> fst (realpath demo_env long_absolute)"
    by (simp add: demo_realpath_missing long_absolute_facts)
  have fr: "\<not> fst (realpath demo_env long_relative)"
    by (simp add: demo_realpath_missing long_relative_facts)
  have oka: "CFStringCreateWithCString demo_env (CHR ''/'' # replicate 1022 (CHR ''a''))"
    by (rule demo_accepts_ascii) simp
  have okr: "CFStringCreateWithCString demo_env (''/Users/demo/'' @ replicate 1011 (CHR ''a''))"
    by (rule demo_accepts_ascii) simp
  from append_path_overlong_truncates [OF fa long_absolute_facts(2) p] oka
  have a: "resolved_path demo_env long_absolute = Some (CHR ''/'' # replicate 1022 (CHR ''a''))
      \<and> append_path demo_env long_absolute ?w =
       Inr (world_init\<lparr>config := config_init
              \<lparr>paths := Some [CHR ''/'' # replicate 1022 (CHR ''a'')]\<rparr>\<rparr>)"
    by (simp add: long_absolute_facts demo_PATH_MAX)
  from append_path_overlong_truncates [OF fr long_relative_facts(2) p, of "''/Users/demo''"] okr
  have r: "resolved_path demo_env long_relative =
        Some (''/Users/demo/'' @ replicate 1011 (CHR ''a''))
      \<and> append_path demo_env long_relative ?w =
       Inr (world_init\<lparr>config := config_init
              \<lparr>paths := Some [''/Users/demo/'' @ replicate 1011 (CHR ''a'')]\<rparr>\<rparr>)"
    by (simp add: long_relative_facts demo_PATH_MAX demo_getcwd)
  from oka okr a r show ?thesis by blast
qed

text \<open>
  Claim C2 as stated fails: with the absolute path of 1025 bytes as the only path
  argument the program does not abort. It creates the stream on the first 1023 bytes of
  the path, runs its session and ends with status 0.
\<close>

theorem overlong_path_aborts_counterexample:
  "cli_parser long_path_env [''fsevent_watch'', long_absolute] =
     Some (demo_args\<lparr>inputs := [long_absolute]\<rparr>)
   \<and> PATH_MAX long_path_env = 1024
   \<and> length long_absolute = 1025
   \<and> \<not> fst (realpath long_path_env long_absolute)
   \<and> main long_path_env [''fsevent_watch'', long_absolute] world_init =
     (Exit 0,
      world_init
       \<lparr> config := config_init\<lparr>paths := Some [CHR ''/'' # replicate 1022 (CHR ''a'')]\<rparr>,
         stdout := [Print ''/tmp/a:'', Print ''/tmp/b:'', Print ''\<newline>'', Flush],
         calls := [FSEventStreamCreate (Some [CHR ''/'' # replicate 1022 (CHR ''a'')])
                     kFSEventStreamEventIdSinceNow 0.3 kFSEventStreamCreateFlagNone,
                   FSEventStreamScheduleWithRunLoop, FSEventStreamStart, CFRunLoopRun,
                   FSEventStreamFlushSync, FSEventStreamStop] \<rparr>)"
proof -
  have c: "cli_parser long_path_env [''fsevent_watch'', long_absolute] =
      Some (demo_args\<lparr>inputs := [long_absolute]\<rparr>)"
    by (simp add: long_path_env_def)
  have pm: "PATH_MAX long_path_env = 1024"
    by (simp add: long_path_env_def demo_env_def)
  have f: "\<not> fst (realpath long_path_env long_absolute)"
    using demo_realpath_missing [OF long_absolute_facts(1)]
    by (simp add: long_path_env_def)
  have "resolved_path long_path_env long_absolute =
      Some (take (PATH_MAX long_path_env - 1) long_absolute)"
    using f long_absolute_facts(3) _ long_absolute_facts(2)
    by (rule resolved_path_absolute) (simp add: pm)
  then have r: "resolved_path long_path_env long_absolute =
      Some (CHR ''/'' # replicate 1022 (CHR ''a''))"
    by (simp add: pm long_absolute_facts)
  have v: "detected_version long_path_env = (10, 7)"
    by (simp add: detected_version_def long_path_env_def demo_env_def)
  have i: "inputs (demo_args\<lparr>inputs := [long_absolute]\<rparr>) = [long_absolute]"
    by simp
  have "CFStringCreateWithCString demo_env (CHR ''/'' # replicate 1022 (CHR ''a''))"
    by (rule demo_accepts_ascii) simp
  then have ok: "CFStringCreateWithCString long_path_env (CHR ''/'' # replicate 1022 (CHR ''a''))"
    by (simp add: long_path_env_def)
  have p: "parse_cli_settings long_path_env [''fsevent_watch'', long_absolute] world_init =
      Inr (world_init\<lparr>config := config_init
             \<lparr>paths := Some [CHR ''/'' # replicate 1022 (CHR ''a'')]\<rparr>\<rparr>)"
    by (simp add: parse_cli_settings_def v c i append_path_def r ok demo_args_def
        world_init_fields config_init_def)
  have s: "setpgid long_path_env = 0"
    and l: "run_loop long_path_env = Some [(2, [''/tmp/a'', ''/tmp/b''], [0, 0], [1, 2])]"
    and fl: "flush_sync long_path_env = []"
    by (simp_all add: long_path_env_def demo_env_def)
  have m: "main long_path_env [''fsevent_watch'', long_absolute] world_init =
     (Exit 0,
      world_init
       \<lparr> config := config_init\<lparr>paths := Some [CHR ''/'' # replicate 1022 (CHR ''a'')]\<rparr>,
         stdout := [Print ''/tmp/a:'', Print ''/tmp/b:'', Print ''\<newline>'', Flush],
         calls := [FSEventStreamCreate (Some [CHR ''/'' # replicate 1022 (CHR ''a'')])
                     kFSEventStreamEventIdSinceNow 0.3 kFSEventStreamCreateFlagNone,
                   FSEventStreamScheduleWithRunLoop, FSEventStreamStart, CFRunLoopRun,
                   FSEventStreamFlushSync, FSEventStreamStop] \<rparr>)"
    by (simp add: main_def p s l fl call_def demo_callback world_init_fields config_init_def)
  from c pm long_absolute_facts(4) f m show ?thesis by blast
qed

text \<open>
  Where the truncation ends inside a UTF-8 character, \<open>CFStringCreateWithCString\<close>
  rejects the bytes and \<open>append_path\<close> goes on with a null reference: the argument
  \<open>cut_character_path\<close> is accepted as it is, and rejected once cut to 1023 bytes.
\<close>

lemma overlong_path_cut_inside_character:
  "CFStringCreateWithCString demo_env cut_character_path
   \<and> resolved_path demo_env cut_character_path =
       Some (CHR ''/'' # replicate 1021 (CHR ''a'') @ [CHR 0xC3])
   \<and> append_path demo_env cut_character_path w = Inl (Crash Null_reference, w)"
proof -
  have ascii: "\<forall>b \<in> set (map of_char (CHR ''/'' # replicate 1021 (CHR ''a''))). b < (128::nat)"
    by simp
  have whole: "map of_char cut_character_path =
      map of_char (CHR ''/'' # replicate 1021 (CHR ''a'')) @ [195, 169::nat]"
    by (simp add: cut_character_path_def)
  have cut: "map of_char (CHR ''/'' # replicate 1021 (CHR ''a'') @ [CHR 0xC3]) =
      map of_char (CHR ''/'' # replicate 1021 (CHR ''a'')) @ [195::nat]"
    by simp
  have ok: "CFStringCreateWithCString demo_env cut_character_path"
    unfolding demo_accepts whole utf8_ascii_prefix [OF ascii]
    by (simp add: utf8_continuation_def)
  have no: "\<not> CFStringCreateWithCString demo_env
      (CHR ''/'' # replicate 1021 (CHR ''a'') @ [CHR 0xC3])"
    unfolding demo_accepts cut utf8_ascii_prefix [OF ascii]
    by simp
  have "length cut_character_path \<noteq> length ''.''"
    by (simp add: cut_character_path_def)
  then have ne: "cut_character_path \<noteq> ''.''"
    by metis
  have fail: "\<not> fst (realpath demo_env cut_character_path)"
    using ne by (simp add: demo_realpath_missing)
  have fc: "first_char cut_character_path = CHR ''/''"
    by (simp add: cut_character_path_def first_char_Cons)
  have nul: "NUL \<notin> set cut_character_path"
    by (simp add: cut_character_path_def NUL_def)
  have "resolved_path demo_env cut_character_path =
      Some (take (PATH_MAX demo_env - 1) cut_character_path)"
    using fail fc _ nul by (rule resolved_path_absolute) (simp add: demo_PATH_MAX)
  then have r: "resolved_path demo_env cut_character_path =
      Some (CHR ''/'' # replicate 1021 (CHR ''a'') @ [CHR 0xC3])"
    by (simp add: demo_PATH_MAX cut_character_path_def)
  from ok r append_path_rejected [OF r no] show ?thesis
    by simp
qed

text \<open>
  The same happens without truncation for an argument that is not UTF-8 at all: the
  two bytes \<open>/\<close> and \<open>FF\<close>.
\<close>

lemma append_path_invalid_utf8:
  "\<not> CFStringCreateWithCString demo_env [CHR ''/'', CHR 0xFF]
   \<and> resolved_path demo_env [CHR ''/'', CHR 0xFF] = Some [CHR ''/'', CHR 0xFF]
   \<and> append_path demo_env [CHR ''/'', CHR 0xFF] w = Inl (Crash Null_reference, w)"
proof -
  have no: "\<not> CFStringCreateWithCString demo_env [CHR ''/'', CHR 0xFF]"
    by (simp add: demo_accepts)
  have "resolved_path demo_env [CHR ''/'', CHR 0xFF] =
      Some (take (PATH_MAX demo_env - 1) [CHR ''/'', CHR 0xFF])"
    by (rule resolved_path_absolute)
      (simp_all add: demo_realpath_missing demo_PATH_MAX first_char_Cons NUL_def)
  then have r: "resolved_path demo_env [CHR ''/'', CHR 0xFF] = Some [CHR ''/'', CHR 0xFF]"
    by (simp add: demo_PATH_MAX)
  from no r append_path_rejected [OF r no] show ?thesis
    by simp
qed

end
